theory Spec2Isabelle
  imports Main "HOL-Library.Word"
begin

section \<open>Values of the JavaScript runtime\<close>

text \<open>
  A \<open>Buffer\<close> is a list of bytes. A JavaScript string is modelled as a \<open>string\<close>
  (its code units, restricted to 8 bits). A field read from a parsed JSON object is a
  \<open>jsval\<close>: the field is absent (\<open>Undefined\<close>) or it is a JSON value, that is
  \<open>null\<close>, a boolean, a number (an integer here), a string, an array or an object
  given by its keys in order.
\<close>

type_synonym byte = "8 word"
type_synonym buffer = "byte list"

datatype jsval =
    Undefined
  | Null
  | Bool bool
  | Num int
  | Str string
  | Arr "jsval list"
  | Obj "(string \<times> jsval) list"

text \<open>
  Exceptions of the runtime. The handlers are \<open>async\<close> functions, so an exception that
  no \<open>try\<close> catches leaves a handler as a rejected promise that nothing handles. The
  code needs \<open>crypto.hkdfSync\<close>, which exists from Node 15 on, where an unhandled
  rejection ends the process: a handler returns \<open>Inl\<close> of the exception, after which
  there is no state any more, or \<open>Inr\<close> of the new state and its effects.
\<close>

datatype js_error = TypeError | RangeError | CryptoError | NoCurveError

subsection \<open>The library the code calls\<close>

text \<open>
  The functions of Node's \<open>crypto\<close>, \<open>Buffer\<close> and \<open>JSON\<close> that the repository calls
  are not code of the repository: they are the fields of a record that every definition
  below takes as its first argument. A function that can throw returns an option.
  \<^item> \<open>createHash_digest alg data\<close>: \<open>crypto.createHash(alg).update(data).digest()\<close>
  \<^item> \<open>hkdfSync alg ikm salt info len\<close>: \<open>crypto.hkdfSync\<close>
  \<^item> \<open>createHmac_digest alg key data\<close>: \<open>crypto.createHmac(alg, key).update(data).digest()\<close>
  \<^item> \<open>cipher_gcm alg key iv aad pt\<close>: \<open>createCipheriv\<close>, \<open>setAAD\<close>, \<open>update\<close>,
    \<open>final\<close>, \<open>getAuthTag\<close>; the ciphertext and the tag
  \<^item> \<open>decipher_gcm alg key iv aad ct tag\<close>: \<open>createDecipheriv\<close>, \<open>setAAD\<close>,
    \<open>setAuthTag\<close>, \<open>update\<close>, \<open>final\<close>; \<open>None\<close> when any of them throws
  \<^item> \<open>ecdh_computeSecret curve priv pub\<close>: \<open>ecdh.computeSecret(pub)\<close> of the
    \<open>ECDH\<close> object created for \<open>curve\<close> that holds the private key \<open>priv\<close>
  \<^item> \<open>utf8_bytes\<close>, \<open>utf8_string\<close>: \<open>Buffer.from(s, "utf8")\<close> and \<open>buf.toString("utf8")\<close>
  \<^item> \<open>base64_string\<close>, \<open>base64_bytes\<close>: \<open>buf.toString("base64")\<close> and
    \<open>Buffer.from(s, "base64")\<close> on a string
  \<^item> \<open>buffer_of_array\<close>: \<open>Buffer.from(a, "base64")\<close> on an array, which ignores the
    encoding and takes a byte from each element
  \<^item> \<open>buffer_of_object\<close>: \<open>Buffer.from(o, "base64")\<close> on an object that is not an
    array, which gives a buffer for an object shaped like an array or like a serialised
    \<open>Buffer\<close> and throws for the others
  \<^item> \<open>JSON_stringify\<close>: \<open>JSON.stringify\<close> of an object given by its keys in order
\<close>

record node =
  createHash_digest :: "string \<Rightarrow> buffer \<Rightarrow> buffer"
  hkdfSync :: "string \<Rightarrow> buffer \<Rightarrow> buffer \<Rightarrow> buffer \<Rightarrow> nat \<Rightarrow> buffer"
  createHmac_digest :: "string \<Rightarrow> buffer \<Rightarrow> buffer \<Rightarrow> buffer"
  cipher_gcm :: "string \<Rightarrow> buffer \<Rightarrow> buffer \<Rightarrow> buffer \<Rightarrow> buffer \<Rightarrow> (buffer \<times> buffer) option"
  decipher_gcm :: "string \<Rightarrow> buffer \<Rightarrow> buffer \<Rightarrow> buffer \<Rightarrow> buffer \<Rightarrow> buffer \<Rightarrow> buffer option"
  ecdh_computeSecret :: "string \<Rightarrow> buffer \<Rightarrow> buffer \<Rightarrow> buffer option"
  utf8_bytes :: "string \<Rightarrow> buffer"
  utf8_string :: "buffer \<Rightarrow> string"
  base64_string :: "buffer \<Rightarrow> string"
  base64_bytes :: "string \<Rightarrow> buffer"
  buffer_of_array :: "jsval list \<Rightarrow> buffer"
  buffer_of_object :: "(string \<times> jsval) list \<Rightarrow> buffer option"
  JSON_stringify :: "(string \<times> jsval) list \<Rightarrow> string"

subsection \<open>Slices, hexadecimal digits, comparison of strings\<close>

text \<open>\<open>buf.subarray(a, b)\<close> and \<open>s.slice(a, b)\<close> for \<open>0 \<le> a \<le> b\<close>: both stop at the end.\<close>

definition subarray :: "buffer \<Rightarrow> nat \<Rightarrow> nat \<Rightarrow> buffer" where
  "subarray buf a b = take (b - a) (drop a buf)"

definition js_slice :: "string \<Rightarrow> nat \<Rightarrow> nat \<Rightarrow> string" where
  "js_slice s a b = take (b - a) (drop a s)"

definition hex_digit :: "nat \<Rightarrow> char" where
  "hex_digit n = ''0123456789abcdef'' ! (n mod 16)"

definition hex_byte :: "byte \<Rightarrow> string" where
  "hex_byte b = [hex_digit (unat b div 16), hex_digit (unat b mod 16)]"

text \<open>\<open>digest("hex")\<close> is the digest's bytes, two lowercase digits each.\<close>

definition hex :: "buffer \<Rightarrow> string" where
  "hex buf = concat (map hex_byte buf)"

text \<open>The order of \<open>Array.prototype.sort\<close> with no comparator: code unit by code unit.\<close>

fun js_less :: "string \<Rightarrow> string \<Rightarrow> bool" where
  "js_less [] [] = False"
| "js_less [] (y # ys) = True"
| "js_less (x # xs) [] = False"
| "js_less (x # xs) (y # ys) =
     (if (of_char x :: nat) < of_char y then True
      else if (of_char y :: nat) < of_char x then False
      else js_less xs ys)"

text \<open>\<open>[a, b].sort()\<close>: the sort is stable, so the pair is swapped only when \<open>b < a\<close>.\<close>

definition sort_pair :: "string \<Rightarrow> string \<Rightarrow> string \<times> string" where
  "sort_pair a b = (if js_less b a then (b, a) else (a, b))"

section \<open>The cryptographic helpers (lib/crypto)\<close>

text \<open>\<open>pickEcdhCurve\<close>, given the list \<open>crypto.getCurves()\<close>.\<close>

definition pickEcdhCurve :: "string list \<Rightarrow> js_error + string" where
  "pickEcdhCurve curves =
     (if ''x25519'' \<in> set curves then Inr ''x25519''
      else if ''prime256v1'' \<in> set curves then Inr ''prime256v1''
      else if ''secp256k1'' \<in> set curves then Inr ''secp256k1''
      else Inl NoCurveError)"

text \<open>The \<open>ECDH\<close> object of \<open>genKeyPairECDH\<close>: its curve and the private key it holds.\<close>

record ecdh_handle =
  ecdh_curve :: string
  ecdh_private :: buffer

definition computeSharedSecret :: "node \<Rightarrow> ecdh_handle \<Rightarrow> buffer \<Rightarrow> js_error + buffer" where
  "computeSharedSecret N ecdh otherPubKey =
     (case ecdh_computeSecret N (ecdh_curve ecdh) (ecdh_private ecdh) otherPubKey of
        None \<Rightarrow> Inl CryptoError
      | Some secret \<Rightarrow> Inr secret)"

definition hkdfSha256 :: "node \<Rightarrow> buffer \<Rightarrow> buffer \<Rightarrow> buffer \<Rightarrow> nat \<Rightarrow> buffer" where
  "hkdfSha256 N ikm salt info len = hkdfSync N ''sha256'' ikm salt info len"

record session_keys =
  kEnc :: buffer
  kMac :: buffer

definition deriveSessionKeys :: "node \<Rightarrow> buffer \<Rightarrow> string \<Rightarrow> session_keys" where
  "deriveSessionKeys N sharedSecret context =
     (let salt = createHash_digest N ''sha256'' (utf8_bytes N ''chat-e2ee-salt'');
          okm = hkdfSha256 N sharedSecret salt (utf8_bytes N context) 64
      in \<lparr>kEnc = subarray okm 0 32, kMac = subarray okm 32 64\<rparr>)"

definition fingerprint :: "node \<Rightarrow> buffer \<Rightarrow> string" where
  "fingerprint N buf =
     (let h = hex (createHash_digest N ''sha256'' buf)
      in js_slice h 0 6 @ ''-'' @ js_slice h 6 12 @ ''-'' @ js_slice h 12 18 @ ''-'' @ js_slice h 18 24)"

record sealed =
  sealed_iv :: buffer
  sealed_ct :: buffer
  sealed_tag :: buffer

text \<open>
  \<open>encryptAesGcm\<close>: the 12 bytes of \<open>crypto.randomBytes(12)\<close> are the argument \<open>iv\<close>.
  The associated data is a \<open>Buffer\<close>, which is never falsy: \<open>setAAD\<close> is always called.
\<close>

definition encryptAesGcm :: "node \<Rightarrow> buffer \<Rightarrow> string \<Rightarrow> buffer \<Rightarrow> buffer \<Rightarrow> js_error + sealed" where
  "encryptAesGcm N key plaintext aad iv =
     (case cipher_gcm N ''aes-256-gcm'' key iv aad (utf8_bytes N plaintext) of
        None \<Rightarrow> Inl CryptoError
      | Some (ct, tag) \<Rightarrow> Inr \<lparr>sealed_iv = iv, sealed_ct = ct, sealed_tag = tag\<rparr>)"

definition decryptAesGcm :: "node \<Rightarrow> buffer \<Rightarrow> buffer \<Rightarrow> buffer \<Rightarrow> buffer \<Rightarrow> buffer \<Rightarrow> js_error + string" where
  "decryptAesGcm N key iv ct tag aad =
     (case decipher_gcm N ''aes-256-gcm'' key iv aad ct tag of
        None \<Rightarrow> Inl CryptoError
      | Some pt \<Rightarrow> Inr (utf8_string N pt))"

definition hmacSha256 :: "node \<Rightarrow> buffer \<Rightarrow> buffer \<Rightarrow> buffer" where
  "hmacSha256 N key data = createHmac_digest N ''sha256'' key data"

text \<open>
  \<open>crypto.timingSafeEqual\<close> throws a \<open>RangeError\<close> when the two buffers differ in
  length, and otherwise tells whether they are equal.
\<close>

definition crypto_timingSafeEqual :: "buffer \<Rightarrow> buffer \<Rightarrow> js_error + bool" where
  "crypto_timingSafeEqual a b = (if length a \<noteq> length b then Inl RangeError else Inr (a = b))"

definition timingSafeEq :: "buffer \<Rightarrow> buffer \<Rightarrow> js_error + bool" where
  "timingSafeEq a b = (if length a \<noteq> length b then Inr False else crypto_timingSafeEqual a b)"

definition b64 :: "node \<Rightarrow> buffer \<Rightarrow> string" where
  "b64 N buf = base64_string N buf"

text \<open>
  \<open>Buffer.from(v, "base64")\<close> decodes a string, takes the bytes of an array or of an
  object it accepts, and throws a \<open>TypeError\<close> for every other value: undefined,
  \<open>null\<close>, a boolean, a number, an object it does not accept.
\<close>

fun unb64 :: "node \<Rightarrow> jsval \<Rightarrow> js_error + buffer" where
  "unb64 N (Str s) = Inr (base64_bytes N s)"
| "unb64 N (Arr xs) = Inr (buffer_of_array N xs)"
| "unb64 N (Obj kvs) =
     (case buffer_of_object N kvs of None \<Rightarrow> Inl TypeError | Some buf \<Rightarrow> Inr buf)"
| "unb64 N Undefined = Inl TypeError"
| "unb64 N Null = Inl TypeError"
| "unb64 N (Bool b) = Inl TypeError"
| "unb64 N (Num n) = Inl TypeError"

section \<open>The client (src/client/index.js)\<close>

subsection \<open>Envelopes, configuration and state\<close>

text \<open>
  The payload of a parsed envelope, by the fields the client reads. An envelope with no
  payload is read as one whose fields are all undefined (\<open>payload || {}\<close>,
  \<open>payload?.curve\<close>).
\<close>

record payload =
  p_curve :: jsval
  p_pub :: jsval
  p_counter :: jsval
  p_iv :: jsval
  p_ct :: jsval
  p_tag :: jsval
  p_hmac :: jsval

definition empty_payload :: payload where
  "empty_payload = \<lparr>p_curve = Undefined, p_pub = Undefined, p_counter = Undefined,
     p_iv = Undefined, p_ct = Undefined, p_tag = Undefined, p_hmac = Undefined\<rparr>"

definition payload_or_empty :: "payload option \<Rightarrow> payload" where
  "payload_or_empty p = (case p of None \<Rightarrow> empty_payload | Some q \<Rightarrow> q)"

text \<open>
  A parsed envelope. The relay forwards an envelope only when its \<open>type\<close>, \<open>room\<close> and
  \<open>from\<close> are present: they are strings here; \<open>to\<close> may be absent.
\<close>

record envelope =
  env_type :: string
  env_room :: string
  env_from :: string
  env_to :: "string option"
  env_payload :: "payload option"

text \<open>What \<open>main\<close> fixes before the socket opens.\<close>

record config =
  room :: string
  me :: string
  peer :: string
  curve :: string
  ecdh :: ecdh_handle
  publicKey :: buffer

text \<open>
  The variables the handlers share: the two of the module and those of \<open>main\<close>, with
  \<open>promptLoop.running\<close>. The last field is not a variable of the source: it tells
  whether the loop of \<open>promptLoop\<close> is waiting for a line, which it does from its
  start until it leaves at \<open>/quit\<close>.
\<close>

record client_state =
  joined :: bool
  handshakeSent :: bool
  session :: "session_keys option"
  sendCounter :: int
  recvCounter :: int
  peerHandshakeReceived :: bool
  pendingMessages :: "envelope list"
  promptLoop_running :: bool
  promptLoop_reading :: bool

definition initial_state :: client_state where
  "initial_state = \<lparr>joined = False, handshakeSent = False, session = None, sendCounter = 0,
     recvCounter = 0, peerHandshakeReceived = False, pendingMessages = [],
     promptLoop_running = False, promptLoop_reading = False\<rparr>"

text \<open>The lines the client prints, without their timestamps.\<close>

datatype log_line =
    Log_handshake_sent string
  | Log_processing_pending nat
  | Log_queued_not_ready
  | Log_hmac_failed
  | Log_text string string
  | Log_decrypt_failed
  | Log_requesting_handshake
  | Log_peer_requests string
  | Log_duplicate_handshake string
  | Log_handshake_received string
  | Log_peer_fingerprint string
  | Log_verify_fingerprint
  | Log_curve_mismatch string jsval
  | Log_keys_derived
  | Log_can_chat
  | Log_not_established
  | Log_session_not_ready

text \<open>
  What a handler does besides changing the state, in order: what it sends, what it
  prints, the timer it sets, the prompt it shows, and its calls of \<open>hmacSha256\<close> (key
  and data) and of \<open>decryptAesGcm\<close> (key, iv, ciphertext, tag and associated data).
\<close>

datatype effect =
    Ws_send envelope
  | Ws_close
  | Console_log log_line
  | Set_timeout
  | Ask_prompt
  | Call_hmacSha256 buffer buffer
  | Call_decryptAesGcm buffer buffer buffer buffer buffer

type_synonym outcome = "js_error + client_state \<times> effect list"

subsection \<open>Helpers of \<open>main\<close>\<close>

definition buildAad :: "node \<Rightarrow> string \<Rightarrow> string \<Rightarrow> string \<Rightarrow> jsval \<Rightarrow> buffer" where
  "buildAad N r f t counter =
     utf8_bytes N (JSON_stringify N
       [(''room'', Str r), (''from'', Str f), (''to'', Str t), (''counter'', counter)])"

definition sendHandshake :: "node \<Rightarrow> config \<Rightarrow> string \<Rightarrow> effect list" where
  "sendHandshake N cfg t =
     [Ws_send \<lparr>env_type = ''handshake'', env_room = room cfg, env_from = me cfg,
        env_to = Some t,
        env_payload = Some (empty_payload\<lparr>p_curve := Str (curve cfg),
          p_pub := Str (b64 N (publicKey cfg))\<rparr>)\<rparr>,
      Console_log (Log_handshake_sent t)]"

definition handleEncryptedMessage :: "node \<Rightarrow> config \<Rightarrow> client_state \<Rightarrow> envelope \<Rightarrow> outcome" where
  "handleEncryptedMessage N cfg s msg =
     (case session s of
        None \<Rightarrow> Inr (s, [Console_log Log_queued_not_ready])
      | Some keys \<Rightarrow>
          let p = payload_or_empty (env_payload msg) in
          (case unb64 N (p_iv p) of Inl e \<Rightarrow> Inl e | Inr ivB \<Rightarrow>
          (case unb64 N (p_ct p) of Inl e \<Rightarrow> Inl e | Inr ctB \<Rightarrow>
          (case unb64 N (p_tag p) of Inl e \<Rightarrow> Inl e | Inr tagB \<Rightarrow>
          (case unb64 N (p_hmac p) of Inl e \<Rightarrow> Inl e | Inr hmacB \<Rightarrow>
            let aad = buildAad N (room cfg) (env_from msg) (me cfg) (p_counter p);
                macData = aad @ ivB @ ctB @ tagB;
                macExpected = hmacSha256 N (kMac keys) macData
            in (case timingSafeEq macExpected hmacB of Inl e \<Rightarrow> Inl e | Inr same \<Rightarrow>
              if \<not> same
              then Inr (s, [Call_hmacSha256 (kMac keys) macData, Console_log Log_hmac_failed])
              else (case decryptAesGcm N (kEnc keys) ivB ctB tagB aad of
                  Inr text \<Rightarrow>
                    Inr (s\<lparr>recvCounter := recvCounter s + 1\<rparr>,
                      [Call_hmacSha256 (kMac keys) macData,
                       Call_decryptAesGcm (kEnc keys) ivB ctB tagB aad,
                       Console_log (Log_text (env_from msg) text)])
                | Inl e \<Rightarrow>
                    Inr (s,
                      [Call_hmacSha256 (kMac keys) macData,
                       Call_decryptAesGcm (kEnc keys) ivB ctB tagB aad,
                       Console_log Log_decrypt_failed]))))))))"

text \<open>\<open>pendingMessages.forEach(msg => handleEncryptedMessage(msg))\<close>.\<close>

fun forEach_pending :: "node \<Rightarrow> config \<Rightarrow> client_state \<Rightarrow> envelope list \<Rightarrow> outcome" where
  "forEach_pending N cfg s [] = Inr (s, [])"
| "forEach_pending N cfg s (msg # rest) =
     (case handleEncryptedMessage N cfg s msg of
        Inl e \<Rightarrow> Inl e
      | Inr (s1, out1) \<Rightarrow>
          (case forEach_pending N cfg s1 rest of
             Inl e \<Rightarrow> Inl e
           | Inr (s2, out2) \<Rightarrow> Inr (s2, out1 @ out2)))"

definition processPendingMessages :: "node \<Rightarrow> config \<Rightarrow> client_state \<Rightarrow> outcome" where
  "processPendingMessages N cfg s =
     (if length (pendingMessages s) > 0
      then (case forEach_pending N cfg s (pendingMessages s) of
              Inl e \<Rightarrow> Inl e
            | Inr (s1, out) \<Rightarrow>
                Inr (s1\<lparr>pendingMessages := []\<rparr>,
                  Console_log (Log_processing_pending (length (pendingMessages s))) # out))
      else Inr (s, []))"

text \<open>
  \<open>promptLoop()\<close>: the first call enters the loop and shows the prompt, a later one
  returns at once.
\<close>

definition promptLoop :: "client_state \<Rightarrow> client_state \<times> effect list" where
  "promptLoop s =
     (if promptLoop_running s then (s, [])
      else (s\<lparr>promptLoop_running := True, promptLoop_reading := True\<rparr>, [Ask_prompt]))"

subsection \<open>The handler of the socket's messages\<close>

text \<open>
  \<open>v || ""\<close>: undefined, \<open>null\<close>, \<open>false\<close>, 0 and the empty string are falsy; every
  array and every object is truthy.
\<close>

fun or_empty_string :: "jsval \<Rightarrow> jsval" where
  "or_empty_string Undefined = Str []"
| "or_empty_string Null = Str []"
| "or_empty_string (Bool b) = (if b then Bool b else Str [])"
| "or_empty_string (Num n) = (if n = 0 then Str [] else Num n)"
| "or_empty_string (Str s) = Str s"
| "or_empty_string (Arr xs) = Arr xs"
| "or_empty_string (Obj kvs) = Obj kvs"

text \<open>The context string of the handshake: the two identities sorted, then the template.\<close>

definition handshake_context :: "string \<Rightarrow> string \<Rightarrow> string \<Rightarrow> string \<Rightarrow> string" where
  "handshake_context r m f c =
     (case sort_pair m f of (id1, id2) \<Rightarrow>
        ''room:'' @ r @ ''|peer1:'' @ id1 @ ''|peer2:'' @ id2 @ ''|curve:'' @ c)"

definition on_joined :: "node \<Rightarrow> config \<Rightarrow> client_state \<Rightarrow> outcome" where
  "on_joined N cfg s =
     (if \<not> handshakeSent s
      then Inr (s\<lparr>joined := True, handshakeSent := True\<rparr>,
             sendHandshake N cfg (peer cfg) @ [Set_timeout])
      else Inr (s\<lparr>joined := True\<rparr>, [Set_timeout]))"

definition on_request_handshake :: "node \<Rightarrow> config \<Rightarrow> client_state \<Rightarrow> envelope \<Rightarrow> outcome" where
  "on_request_handshake N cfg s msg =
     Inr (s, Console_log (Log_peer_requests (env_from msg)) # sendHandshake N cfg (env_from msg))"

definition on_handshake :: "node \<Rightarrow> config \<Rightarrow> client_state \<Rightarrow> envelope \<Rightarrow> outcome" where
  "on_handshake N cfg s msg =
     (if peerHandshakeReceived s
      then Inr (s, [Console_log (Log_duplicate_handshake (env_from msg))])
      else
        let otherCurve = p_curve (payload_or_empty (env_payload msg)) in
        (case unb64 N (or_empty_string (p_pub (payload_or_empty (env_payload msg)))) of
           Inl e \<Rightarrow> Inl e
         | Inr otherPub \<Rightarrow>
             let received =
                   [Console_log (Log_handshake_received (env_from msg)),
                    Console_log (Log_peer_fingerprint (fingerprint N otherPub)),
                    Console_log Log_verify_fingerprint]
             in if otherCurve \<noteq> Str (curve cfg)
                then Inr (s, received @ [Console_log (Log_curve_mismatch (curve cfg) otherCurve)])
                else
                  let reply = (if \<not> handshakeSent s then sendHandshake N cfg (env_from msg) else []);
                      s1 = s\<lparr>handshakeSent := True\<rparr>
                  in (case computeSharedSecret N (ecdh cfg) otherPub of
                        Inl e \<Rightarrow> Inl e
                      | Inr shared \<Rightarrow>
                          let context = handshake_context (room cfg) (me cfg) (env_from msg) (curve cfg);
                              s2 = s1\<lparr>session := Some (deriveSessionKeys N shared context),
                                     peerHandshakeReceived := True\<rparr>
                          in (case processPendingMessages N cfg s2 of
                                Inl e \<Rightarrow> Inl e
                              | Inr (s3, drained) \<Rightarrow>
                                  (case promptLoop s3 of (s4, prompt) \<Rightarrow>
                                     Inr (s4, received @ reply
                                       @ [Console_log Log_keys_derived, Console_log Log_can_chat]
                                       @ drained @ prompt))))))"

definition on_msg :: "node \<Rightarrow> config \<Rightarrow> client_state \<Rightarrow> envelope \<Rightarrow> outcome" where
  "on_msg N cfg s msg =
     (case session s of
        None \<Rightarrow> Inr (s\<lparr>pendingMessages := pendingMessages s @ [msg]\<rparr>,
                  [Console_log Log_not_established])
      | Some keys \<Rightarrow> handleEncryptedMessage N cfg s msg)"

text \<open>
  \<open>ws.on("message", ...)\<close> for a text that parses: an envelope addressed to another
  identity is dropped, then the branch of the envelope's type runs. The source tests the
  type in four consecutive \<open>if\<close>s; the type is one string, so at most one of them
  runs. The second client of the repository repeats these handlers with other printed
  lines, without the timer, the \<open>request_handshake\<close> branch and the reply to a
  handshake; it is not modelled apart.
\<close>

definition not_for_me :: "config \<Rightarrow> envelope \<Rightarrow> bool" where
  "not_for_me cfg msg = (case env_to msg of None \<Rightarrow> False | Some t \<Rightarrow> t \<noteq> [] \<and> t \<noteq> me cfg)"

definition ws_on_message :: "node \<Rightarrow> config \<Rightarrow> client_state \<Rightarrow> envelope \<Rightarrow> outcome" where
  "ws_on_message N cfg s msg =
     (if not_for_me cfg msg then Inr (s, [])
      else if env_type msg = ''joined'' then on_joined N cfg s
      else if env_type msg = ''request_handshake'' then on_request_handshake N cfg s msg
      else if env_type msg = ''handshake'' then on_handshake N cfg s msg
      else if env_type msg = ''msg'' then on_msg N cfg s msg
      else Inr (s, []))"

subsection \<open>The socket's opening, the timer and the prompt loop\<close>

definition ws_on_open :: "config \<Rightarrow> client_state \<Rightarrow> outcome" where
  "ws_on_open cfg s =
     Inr (s, [Ws_send \<lparr>env_type = ''join'', env_room = room cfg, env_from = me cfg,
                env_to = None, env_payload = None\<rparr>])"

text \<open>The function given to \<open>setTimeout\<close> on \<open>joined\<close>.\<close>

definition on_timeout :: "config \<Rightarrow> client_state \<Rightarrow> outcome" where
  "on_timeout cfg s =
     (if \<not> peerHandshakeReceived s
      then Inr (s, [Console_log Log_requesting_handshake,
             Ws_send \<lparr>env_type = ''request_handshake'', env_room = room cfg, env_from = me cfg,
               env_to = Some (peer cfg), env_payload = None\<rparr>])
      else Inr (s, []))"

text \<open>
  One turn of the loop of \<open>promptLoop\<close>, for the line the user typed and the bytes
  \<open>iv\<close> that \<open>crypto.randomBytes\<close> returns when the line is sent. At \<open>/quit\<close> the
  loop closes the socket and leaves: it reads no further line.
\<close>

definition promptLoop_line :: "node \<Rightarrow> config \<Rightarrow> client_state \<Rightarrow> buffer \<Rightarrow> string \<Rightarrow> outcome" where
  "promptLoop_line N cfg s iv line =
     (if line = [] then Inr (s, [Ask_prompt])
      else if line = ''/quit'' then Inr (s\<lparr>promptLoop_reading := False\<rparr>, [Ws_close])
      else (case session s of
              None \<Rightarrow> Inr (s, [Console_log Log_session_not_ready, Ask_prompt])
            | Some keys \<Rightarrow>
                let counter = sendCounter s + 1;
                    aad = buildAad N (room cfg) (me cfg) (peer cfg) (Num counter)
                in (case encryptAesGcm N (kEnc keys) line aad iv of
                      Inl e \<Rightarrow> Inl e
                    | Inr c \<Rightarrow>
                        let macData = aad @ sealed_iv c @ sealed_ct c @ sealed_tag c;
                            mac = hmacSha256 N (kMac keys) macData
                        in Inr (s\<lparr>sendCounter := counter\<rparr>,
                             [Call_hmacSha256 (kMac keys) macData,
                              Ws_send \<lparr>env_type = ''msg'', env_room = room cfg, env_from = me cfg,
                                env_to = Some (peer cfg),
                                env_payload = Some (empty_payload\<lparr>p_counter := Num counter,
                                  p_iv := Str (b64 N (sealed_iv c)), p_ct := Str (b64 N (sealed_ct c)),
                                  p_tag := Str (b64 N (sealed_tag c)), p_hmac := Str (b64 N mac)\<rparr>)\<rparr>,
                              Ask_prompt]))))"

subsection \<open>Runs of the client\<close>

text \<open>
  The events of the single thread, each handled to completion before the next: the socket
  opens, a message arrives, the timer fires, the user enters a line (read only while the
  prompt loop is waiting for one).
\<close>

datatype event = Ws_open | Ws_message envelope | Timeout | Line buffer string

fun handle :: "node \<Rightarrow> config \<Rightarrow> client_state \<Rightarrow> event \<Rightarrow> outcome" where
  "handle N cfg s Ws_open = ws_on_open cfg s"
| "handle N cfg s (Ws_message msg) = ws_on_message N cfg s msg"
| "handle N cfg s Timeout = on_timeout cfg s"
| "handle N cfg s (Line iv line) =
     (if promptLoop_reading s then promptLoop_line N cfg s iv line else Inr (s, []))"

fun run :: "node \<Rightarrow> config \<Rightarrow> client_state \<Rightarrow> event list \<Rightarrow> outcome" where
  "run N cfg s [] = Inr (s, [])"
| "run N cfg s (ev # evs) =
     (case handle N cfg s ev of
        Inl e \<Rightarrow> Inl e
      | Inr (s1, out1) \<Rightarrow>
          (case run N cfg s1 evs of
             Inl e \<Rightarrow> Inl e
           | Inr (s2, out2) \<Rightarrow> Inr (s2, out1 @ out2)))"

text \<open>The state a run ends in; none when an exception ended the process.\<close>

definition final_state :: "outcome \<Rightarrow> client_state option" where
  "final_state r = (case r of Inl e \<Rightarrow> None | Inr (s, out) \<Rightarrow> Some s)"

text \<open>What a run did; nothing is kept of a process that an exception ended.\<close>

definition effects_of :: "outcome \<Rightarrow> effect list" where
  "effects_of r = (case r of Inl e \<Rightarrow> [] | Inr (s, out) \<Rightarrow> out)"

section \<open>Notions used to state the properties\<close>

text \<open>
  An envelope is well shaped as a message when \<open>unb64\<close> decodes each of its four
  binary fields, that is when none of the four calls throws.
\<close>

definition decodes :: "node \<Rightarrow> jsval \<Rightarrow> bool" where
  "decodes N v = (case unb64 N v of Inl e \<Rightarrow> False | Inr buf \<Rightarrow> True)"

definition field_bytes :: "node \<Rightarrow> jsval \<Rightarrow> buffer" where
  "field_bytes N v = (case unb64 N v of Inl e \<Rightarrow> [] | Inr buf \<Rightarrow> buf)"

definition well_shaped :: "node \<Rightarrow> envelope \<Rightarrow> bool" where
  "well_shaped N msg =
     (let p = payload_or_empty (env_payload msg)
      in decodes N (p_iv p) \<and> decodes N (p_ct p) \<and> decodes N (p_tag p)
         \<and> decodes N (p_hmac p))"

text \<open>
  What the library promises, as far as a property needs it. AES-256-GCM encrypts under
  every key of 32 bytes and nonce of 12 bytes, and decrypting its ciphertext and tag
  under the same key, nonce and associated data gives the plaintext back. Base64 and
  UTF-8 decode what they encoded.
\<close>

definition gcm_contract :: "node \<Rightarrow> bool" where
  "gcm_contract N =
     ((\<forall>key iv aad pt. length key = 32 \<longrightarrow> length iv = 12 \<longrightarrow>
          cipher_gcm N ''aes-256-gcm'' key iv aad pt \<noteq> None)
      \<and> (\<forall>key iv aad pt ct tag.
            cipher_gcm N ''aes-256-gcm'' key iv aad pt = Some (ct, tag) \<longrightarrow>
            decipher_gcm N ''aes-256-gcm'' key iv aad ct tag = Some pt))"

definition base64_contract :: "node \<Rightarrow> bool" where
  "base64_contract N = (\<forall>buf. base64_bytes N (base64_string N buf) = buf)"

definition utf8_contract :: "node \<Rightarrow> bool" where
  "utf8_contract N = (\<forall>text. utf8_string N (utf8_bytes N text) = text)"

text \<open>
  The message envelope that carries a ciphertext with its nonce and tag and an HMAC, all
  four in base64.
\<close>

definition msg_envelope ::
  "node \<Rightarrow> string \<Rightarrow> string \<Rightarrow> string \<Rightarrow> jsval \<Rightarrow> buffer \<Rightarrow> buffer \<Rightarrow> buffer \<Rightarrow> buffer \<Rightarrow> envelope" where
  "msg_envelope N r f t counter iv ct tag mac =
     \<lparr>env_type = ''msg'', env_room = r, env_from = f, env_to = Some t,
      env_payload = Some (empty_payload\<lparr>p_counter := counter,
        p_iv := Str (b64 N iv), p_ct := Str (b64 N ct), p_tag := Str (b64 N tag),
        p_hmac := Str (b64 N mac)\<rparr>)\<rparr>"

text \<open>The associated data the receiver rebuilds for a well-shaped envelope.\<close>

definition aad_of :: "node \<Rightarrow> config \<Rightarrow> envelope \<Rightarrow> buffer" where
  "aad_of N cfg msg =
     buildAad N (room cfg) (env_from msg) (me cfg) (p_counter (payload_or_empty (env_payload msg)))"

text \<open>The bytes under the HMAC: \<open>aad || iv || ciphertext || authTag\<close>.\<close>

definition macData_of :: "node \<Rightarrow> config \<Rightarrow> envelope \<Rightarrow> buffer" where
  "macData_of N cfg msg =
     (let p = payload_or_empty (env_payload msg)
      in aad_of N cfg msg @ field_bytes N (p_iv p) @ field_bytes N (p_ct p) @ field_bytes N (p_tag p))"

definition received_hmac :: "node \<Rightarrow> envelope \<Rightarrow> buffer" where
  "received_hmac N msg = field_bytes N (p_hmac (payload_or_empty (env_payload msg)))"

fun is_hmac_call :: "effect \<Rightarrow> bool" where
  "is_hmac_call (Call_hmacSha256 k d) = True"
| "is_hmac_call e = False"

fun is_decrypt_call :: "effect \<Rightarrow> bool" where
  "is_decrypt_call (Call_decryptAesGcm k i c t a) = True"
| "is_decrypt_call e = False"

text \<open>The line printed when the keys are derived, just before the queue is drained.\<close>

definition is_establishment :: "effect \<Rightarrow> bool" where
  "is_establishment e = (e = Console_log Log_keys_derived)"

text \<open>
  The session exists exactly when the peer's handshake has been accepted, and then
  nothing is queued.
\<close>

definition session_inv :: "client_state \<Rightarrow> bool" where
  "session_inv s =
     (case session s of
        None \<Rightarrow> \<not> peerHandshakeReceived s
      | Some keys \<Rightarrow> peerHandshakeReceived s \<and> pendingMessages s = [])"

text \<open>
  The derivation in the specification's words: the salt is the SHA-256 digest of the
  literal, the output key material is 64 bytes of HKDF-SHA256, the encryption key is its
  bytes 0 to 31 and the MAC key its bytes 32 to 63.
\<close>

definition derive_spec :: "node \<Rightarrow> buffer \<Rightarrow> string \<Rightarrow> session_keys" where
  "derive_spec N sharedSecret context =
     (let salt = createHash_digest N ''sha256'' (utf8_bytes N ''chat-e2ee-salt'');
          okm = hkdfSync N ''sha256'' sharedSecret salt (utf8_bytes N context) 64
      in \<lparr>kEnc = map (\<lambda>i. okm ! i) [0..<32], kMac = map (\<lambda>i. okm ! i) [32..<64]\<rparr>)"

section \<open>A small instance to run the definitions on\<close>

text \<open>
  A library of toy functions of the right shapes (not cryptography): digests of 32
  bytes, key material of the length asked for, a cipher that shifts each byte and accepts 32-byte
  keys only, an agreement whose public key is the private key, and bytes written as
  characters.
\<close>

definition toy_node :: node where
  "toy_node = \<lparr>
     createHash_digest = (\<lambda>alg data. replicate 32 (sum_list data + of_nat (length data))),
     hkdfSync = (\<lambda>alg ikm salt info len.
        map (\<lambda>i. sum_list ikm + sum_list info + of_nat i) [0..<len]),
     createHmac_digest = (\<lambda>alg key data. [sum_list key + sum_list data, of_nat (length data)]),
     cipher_gcm = (\<lambda>alg key iv aad pt.
        if length key = 32 then Some (map (\<lambda>b. b + 1) pt, [sum_list aad + sum_list iv]) else None),
     decipher_gcm = (\<lambda>alg key iv aad ct tag.
        if length key = 32 \<and> tag = [sum_list aad + sum_list iv]
        then Some (map (\<lambda>b. b - 1) ct) else None),
     ecdh_computeSecret = (\<lambda>c priv pub.
        if pub = [] then None else Some [sum_list priv + sum_list pub]),
     utf8_bytes = map (\<lambda>c. of_nat (of_char c)),
     utf8_string = map (\<lambda>b. char_of (unat b)),
     base64_string = map (\<lambda>b. char_of (unat b)),
     base64_bytes = map (\<lambda>c. of_nat (of_char c)),
     buffer_of_array = map (\<lambda>v. case v of Num n \<Rightarrow> of_int n | _ \<Rightarrow> 0),
     buffer_of_object = (\<lambda>kvs. None),
     JSON_stringify = (\<lambda>kvs. concat (map (\<lambda>(k, v). k @ ''='' @
        (case v of Str s \<Rightarrow> s | Num n \<Rightarrow> replicate (nat n) CHR ''I'' | _ \<Rightarrow> []) @ '';'')
        kvs))\<rparr>"

definition alice :: config where
  "alice = \<lparr>room = ''r1'', me = ''alice'', peer = ''bob'', curve = ''x25519'',
     ecdh = \<lparr>ecdh_curve = ''x25519'', ecdh_private = [1, 2, 3]\<rparr>, publicKey = [1, 2, 3]\<rparr>"

definition bob :: config where
  "bob = \<lparr>room = ''r1'', me = ''bob'', peer = ''alice'', curve = ''x25519'',
     ecdh = \<lparr>ecdh_curve = ''x25519'', ecdh_private = [4, 5]\<rparr>, publicKey = [4, 5]\<rparr>"

text \<open>The handshake each of them sends, and one of Bob's that names another curve.\<close>

definition handshake_of :: "config \<Rightarrow> envelope" where
  "handshake_of cfg =
     \<lparr>env_type = ''handshake'', env_room = room cfg, env_from = me cfg, env_to = Some (peer cfg),
      env_payload = Some (empty_payload\<lparr>p_curve := Str (curve cfg),
        p_pub := Str (b64 toy_node (publicKey cfg))\<rparr>)\<rparr>"

definition bob_other_curve :: envelope where
  "bob_other_curve =
     (handshake_of bob)\<lparr>env_payload := Some (empty_payload\<lparr>p_curve := Str ''secp256k1'',
        p_pub := Str (b64 toy_node (publicKey bob))\<rparr>)\<rparr>"

text \<open>
  The keys both derive from the toy secret, the states in which each holds them, and
  the envelope Alice's client sends for the line \<open>hi\<close> when the 12 random bytes are
  those of \<open>toy_iv\<close>.
\<close>

definition toy_keys :: session_keys where
  "toy_keys = deriveSessionKeys toy_node [15] ''room:r1|peer1:alice|peer2:bob|curve:x25519''"

definition established :: client_state where
  "established = \<lparr>joined = False, handshakeSent = True, session = Some toy_keys,
     sendCounter = 0, recvCounter = 0, peerHandshakeReceived = True, pendingMessages = [],
     promptLoop_running = True, promptLoop_reading = True\<rparr>"

definition toy_iv :: buffer where
  "toy_iv = [9, 9, 0, 0, 0, 0, 0, 0, 0, 0, 0, 0]"

definition hi_msg :: envelope where
  "hi_msg = \<lparr>env_type = ''msg'', env_room = ''r1'', env_from = ''alice'', env_to = Some ''bob'',
     env_payload = Some (empty_payload\<lparr>p_counter := Num 1,
       p_iv := Str (b64 toy_node toy_iv), p_ct := Str ''ij'', p_tag := Str ''c'',
       p_hmac := Str (b64 toy_node [201, 51])\<rparr>)\<rparr>"

text \<open>
  The same envelope with another HMAC of the right length, with another counter and
  ciphertext, with no payload at all, with an HMAC that is too short, and with no
  \<open>hmac\<close> field.
\<close>

definition forged_msg :: envelope where
  "forged_msg = hi_msg\<lparr>env_payload :=
     Some ((payload_or_empty (env_payload hi_msg))\<lparr>p_hmac := Str ''zz''\<rparr>)\<rparr>"

definition other_msg :: envelope where
  "other_msg = hi_msg\<lparr>env_payload :=
     Some ((payload_or_empty (env_payload hi_msg))\<lparr>p_counter := Num 2, p_ct := Str ''xyz''\<rparr>)\<rparr>"

definition bare_msg :: envelope where
  "bare_msg = \<lparr>env_type = ''msg'', env_room = ''r1'', env_from = ''alice'', env_to = Some ''bob'',
     env_payload = None\<rparr>"

definition short_hmac_msg :: envelope where
  "short_hmac_msg = hi_msg\<lparr>env_payload :=
     Some ((payload_or_empty (env_payload hi_msg))\<lparr>p_hmac := Str ''z''\<rparr>)\<rparr>"

definition no_hmac_msg :: envelope where
  "no_hmac_msg = hi_msg\<lparr>env_payload :=
     Some ((payload_or_empty (env_payload hi_msg))\<lparr>p_hmac := Undefined\<rparr>)\<rparr>"

section \<open>Auxiliary facts\<close>

lemma unb64_decodes: "decodes N v \<Longrightarrow> unb64 N v = Inr (field_bytes N v)"
  by (simp add: decodes_def field_bytes_def split: sum.splits)

lemma timingSafeEq_eq: "timingSafeEq a b = Inr (a = b)"
  by (auto simp: timingSafeEq_def crypto_timingSafeEqual_def)

lemma handle_frame:
  assumes "handleEncryptedMessage N cfg s msg = Inr (s', out)"
  shows "(s' = s \<or> s' = s\<lparr>recvCounter := recvCounter s + 1\<rparr>) \<and> filter is_establishment out = []"
  using assms
  by (auto simp: handleEncryptedMessage_def Let_def is_establishment_def
      split: option.splits sum.splits if_splits)

lemma handle_frame_fields:
  assumes "handleEncryptedMessage N cfg s msg = Inr (s', out)"
  shows "session s' = session s \<and> peerHandshakeReceived s' = peerHandshakeReceived s
       \<and> pendingMessages s' = pendingMessages s \<and> handshakeSent s' = handshakeSent s
       \<and> joined s' = joined s \<and> sendCounter s' = sendCounter s
       \<and> promptLoop_running s' = promptLoop_running s"
  using handle_frame [OF assms] by auto

lemma forEach_frame:
  "forEach_pending N cfg s ms = Inr (s', out) \<Longrightarrow>
     session s' = session s \<and> peerHandshakeReceived s' = peerHandshakeReceived s
       \<and> pendingMessages s' = pendingMessages s \<and> handshakeSent s' = handshakeSent s
       \<and> joined s' = joined s \<and> sendCounter s' = sendCounter s
       \<and> promptLoop_running s' = promptLoop_running s
       \<and> filter is_establishment out = []"
proof (induction ms arbitrary: s s' out)
  case Nil
  then show ?case by simp
next
  case (Cons m ms)
  from Cons.prems obtain s1 out1 out2 where
    h: "handleEncryptedMessage N cfg s m = Inr (s1, out1)"
    and r: "forEach_pending N cfg s1 ms = Inr (s', out2)" and o: "out = out1 @ out2"
    by (auto split: sum.splits)
  from handle_frame_fields [OF h] handle_frame [OF h] Cons.IH [OF r] o
  show ?case by simp
qed

lemma processPending_frame:
  assumes "processPendingMessages N cfg s = Inr (s', out)"
  shows "session s' = session s \<and> peerHandshakeReceived s' = peerHandshakeReceived s
       \<and> pendingMessages s' = [] \<and> handshakeSent s' = handshakeSent s
       \<and> joined s' = joined s \<and> sendCounter s' = sendCounter s
       \<and> promptLoop_running s' = promptLoop_running s
       \<and> filter is_establishment out = []"
proof (cases "pendingMessages s")
  case Nil
  with assms show ?thesis by (simp add: processPendingMessages_def)
next
  case (Cons m ms)
  with assms obtain s1 out1 where
    f: "forEach_pending N cfg s (pendingMessages s) = Inr (s1, out1)"
    and s': "s' = s1\<lparr>pendingMessages := []\<rparr>"
    and o: "out = Console_log (Log_processing_pending (length (pendingMessages s))) # out1"
    by (auto simp: processPendingMessages_def split: sum.splits)
  from forEach_frame [OF f] s' o show ?thesis by (simp add: is_establishment_def)
qed

lemma sendHandshake_no_establishment: "filter is_establishment (sendHandshake N cfg t) = []"
  by (simp add: sendHandshake_def is_establishment_def)

lemma promptLoop_frame:
  "promptLoop s = (s', out) \<Longrightarrow>
     session s' = session s \<and> peerHandshakeReceived s' = peerHandshakeReceived s
     \<and> pendingMessages s' = pendingMessages s \<and> filter is_establishment out = []"
  by (auto simp: promptLoop_def is_establishment_def split: if_splits)

lemma on_handshake_inv:
  assumes "session_inv s" "on_handshake N cfg s msg = Inr (s', out)"
  shows "session_inv s'
       \<and> (peerHandshakeReceived s \<longrightarrow> s' = s \<and> filter is_establishment out = [])
       \<and> length (filter is_establishment out) \<le> 1
       \<and> (filter is_establishment out \<noteq> [] \<longrightarrow> peerHandshakeReceived s')"
proof (cases "peerHandshakeReceived s")
  case True
  with assms show ?thesis by (auto simp: on_handshake_def is_establishment_def)
next
  case False
  from assms(2) False obtain pub where
    pub: "unb64 N (or_empty_string (p_pub (payload_or_empty (env_payload msg)))) = Inr pub"
    by (cases "unb64 N (or_empty_string (p_pub (payload_or_empty (env_payload msg))))")
      (auto simp: on_handshake_def Let_def)
  show ?thesis
  proof (cases "p_curve (payload_or_empty (env_payload msg)) = Str (curve cfg)")
    case mismatch: False
    with assms False pub show ?thesis
      by (auto simp: on_handshake_def Let_def is_establishment_def)
  next
    case match: True
    from assms(2) False pub match obtain shared where
      sh: "computeSharedSecret N (ecdh cfg) pub = Inr shared"
      by (cases "computeSharedSecret N (ecdh cfg) pub") (auto simp: on_handshake_def Let_def)
    let ?s2 = "s\<lparr>handshakeSent := True,
        session := Some (deriveSessionKeys N shared
          (handshake_context (room cfg) (me cfg) (env_from msg) (curve cfg))),
        peerHandshakeReceived := True\<rparr>"
    from assms(2) False pub match sh obtain s3 drained s4 prompt where
      pp: "processPendingMessages N cfg ?s2 = Inr (s3, drained)"
      and pl: "promptLoop s3 = (s4, prompt)"
      and s': "s' = s4"
      and out: "out = [Console_log (Log_handshake_received (env_from msg)),
                    Console_log (Log_peer_fingerprint (fingerprint N pub)),
                    Console_log Log_verify_fingerprint]
           @ (if \<not> handshakeSent s then sendHandshake N cfg (env_from msg) else [])
           @ [Console_log Log_keys_derived, Console_log Log_can_chat] @ drained @ prompt"
      by (auto simp: on_handshake_def Let_def split: sum.splits prod.splits)
    from processPending_frame [OF pp] promptLoop_frame [OF pl] s' out False
    show ?thesis
      by (simp add: session_inv_def is_establishment_def sendHandshake_def)
  qed
qed

lemma handle_inv:
  assumes "session_inv s" "handle N cfg s ev = Inr (s', out)"
  shows "session_inv s'
       \<and> (peerHandshakeReceived s \<longrightarrow> peerHandshakeReceived s' \<and> filter is_establishment out = [])
       \<and> length (filter is_establishment out) \<le> 1
       \<and> (filter is_establishment out \<noteq> [] \<longrightarrow> peerHandshakeReceived s')"
proof (cases ev)
  case Ws_open
  with assms show ?thesis by (auto simp: ws_on_open_def is_establishment_def)
next
  case Timeout
  with assms show ?thesis by (auto simp: on_timeout_def is_establishment_def split: if_splits)
next
  case (Line iv line)
  with assms show ?thesis
    by (auto simp: promptLoop_line_def session_inv_def is_establishment_def Let_def
        split: if_splits option.splits sum.splits)
next
  case (Ws_message msg)
  show ?thesis
  proof (cases "\<not> not_for_me cfg msg \<and> env_type msg = ''handshake''")
    case True
    with assms Ws_message have "on_handshake N cfg s msg = Inr (s', out)"
      by (simp add: ws_on_message_def)
    from on_handshake_inv [OF assms(1) this] show ?thesis by auto
  next
    case False
    then consider "not_for_me cfg msg" | "\<not> not_for_me cfg msg" "env_type msg = ''joined''"
      | "\<not> not_for_me cfg msg" "env_type msg = ''request_handshake''"
      | "\<not> not_for_me cfg msg" "env_type msg = ''msg''"
      | "\<not> not_for_me cfg msg" "env_type msg \<noteq> ''joined''" "env_type msg \<noteq> ''request_handshake''"
        "env_type msg \<noteq> ''handshake''" "env_type msg \<noteq> ''msg''"
      by blast
    then show ?thesis
    proof cases
      case 1
      with assms Ws_message show ?thesis by (auto simp: ws_on_message_def)
    next
      case 2
      with assms Ws_message show ?thesis
        by (auto simp: ws_on_message_def on_joined_def session_inv_def is_establishment_def
            sendHandshake_def split: if_splits option.splits)
    next
      case 3
      with assms Ws_message show ?thesis
        by (auto simp: ws_on_message_def on_request_handshake_def is_establishment_def
            sendHandshake_def)
    next
      case 4
      show ?thesis
      proof (cases "session s")
        case None
        with 4 assms Ws_message show ?thesis
          by (auto simp: ws_on_message_def on_msg_def session_inv_def is_establishment_def)
      next
        case (Some keys)
        with 4 assms Ws_message have h: "handleEncryptedMessage N cfg s msg = Inr (s', out)"
          by (simp add: ws_on_message_def on_msg_def)
        from handle_frame_fields [OF h] handle_frame [OF h] assms(1) show ?thesis
          by (auto simp: session_inv_def split: option.splits)
      qed
    next
      case 5
      with assms Ws_message show ?thesis by (auto simp: ws_on_message_def)
    qed
  qed
qed

lemma run_inv:
  "session_inv s \<Longrightarrow> run N cfg s evs = Inr (s', out) \<Longrightarrow>
     session_inv s'
     \<and> (peerHandshakeReceived s \<longrightarrow> peerHandshakeReceived s' \<and> filter is_establishment out = [])
     \<and> length (filter is_establishment out) \<le> 1"
proof (induction evs arbitrary: s s' out)
  case Nil
  then show ?case by simp
next
  case (Cons ev evs)
  from Cons.prems(2) obtain s1 out1 out2 where
    h: "handle N cfg s ev = Inr (s1, out1)" and r: "run N cfg s1 evs = Inr (s', out2)"
    and o: "out = out1 @ out2"
    by (auto split: sum.splits)
  note H = handle_inv [OF Cons.prems(1) h]
  from H have i1: "session_inv s1" by simp
  note R = Cons.IH [OF i1 r]
  show ?case
  proof (cases "filter is_establishment out1 = []")
    case True
    with H R o show ?thesis by auto
  next
    case False
    with H have "peerHandshakeReceived s1" by simp
    with R have "filter is_establishment out2 = []" by simp
    with H R o show ?thesis by auto
  qed
qed

lemma initial_inv: "session_inv initial_state"
  by (simp add: session_inv_def initial_state_def)

lemma handle_well_shaped:
  assumes "session s = Some keys" "well_shaped N msg"
  shows "handleEncryptedMessage N cfg s msg =
     (let p = payload_or_empty (env_payload msg);
          ivB = field_bytes N (p_iv p); ctB = field_bytes N (p_ct p); tagB = field_bytes N (p_tag p)
      in if hmacSha256 N (kMac keys) (macData_of N cfg msg) \<noteq> received_hmac N msg
         then Inr (s, [Call_hmacSha256 (kMac keys) (macData_of N cfg msg),
                 Console_log Log_hmac_failed])
         else (case decryptAesGcm N (kEnc keys) ivB ctB tagB (aad_of N cfg msg) of
                 Inr text \<Rightarrow>
                   Inr (s\<lparr>recvCounter := recvCounter s + 1\<rparr>,
                     [Call_hmacSha256 (kMac keys) (macData_of N cfg msg),
                      Call_decryptAesGcm (kEnc keys) ivB ctB tagB (aad_of N cfg msg),
                      Console_log (Log_text (env_from msg) text)])
               | Inl e \<Rightarrow>
                   Inr (s,
                     [Call_hmacSha256 (kMac keys) (macData_of N cfg msg),
                      Call_decryptAesGcm (kEnc keys) ivB ctB tagB (aad_of N cfg msg),
                      Console_log Log_decrypt_failed])))"
  using assms
  by (simp add: handleEncryptedMessage_def well_shaped_def macData_of_def received_hmac_def
      aad_of_def Let_def unb64_decodes timingSafeEq_eq split: sum.splits)

lemma length_hex: "length (hex buf) = 2 * length buf"
  by (induction buf) (simp_all add: hex_def hex_byte_def)

lemma hex_digit_in: "hex_digit n \<in> set ''0123456789abcdef''"
proof -
  have "n mod 16 < length ''0123456789abcdef''" by simp
  then show ?thesis unfolding hex_digit_def by (rule nth_mem)
qed

lemma set_hex: "set (hex buf) \<subseteq> set ''0123456789abcdef''"
  unfolding hex_def hex_byte_def using hex_digit_in by auto

lemma subarray_nth:
  "b \<le> length buf \<Longrightarrow> a \<le> b \<Longrightarrow> subarray buf a b = map (\<lambda>i. buf ! i) [a..<b]"
  unfolding subarray_def
  by (auto intro!: nth_equalityI)





lemma final_state_Some: "final_state r = Some s \<Longrightarrow> \<exists>out. r = Inr (s, out) \<and> effects_of r = out"
  by (auto simp: final_state_def effects_of_def split: sum.splits)

lemma unb64_Inr: "unb64 N v = Inr b \<Longrightarrow> decodes N v"
  by (simp add: decodes_def)

lemma handle_returns_well_shaped:
  assumes "handleEncryptedMessage N cfg s msg = Inr (s', out)" "session s = Some keys"
  shows "well_shaped N msg"
proof -
  let ?p = "payload_or_empty (env_payload msg)"
  from assms obtain i where i: "unb64 N (p_iv ?p) = Inr i"
    by (cases "unb64 N (p_iv ?p)") (auto simp: handleEncryptedMessage_def Let_def)
  from assms i obtain c where c: "unb64 N (p_ct ?p) = Inr c"
    by (cases "unb64 N (p_ct ?p)") (auto simp: handleEncryptedMessage_def Let_def)
  from assms i c obtain t where t: "unb64 N (p_tag ?p) = Inr t"
    by (cases "unb64 N (p_tag ?p)") (auto simp: handleEncryptedMessage_def Let_def)
  from assms i c t obtain h where h: "unb64 N (p_hmac ?p) = Inr h"
    by (cases "unb64 N (p_hmac ?p)") (auto simp: handleEncryptedMessage_def Let_def)
  from unb64_Inr [OF i] unb64_Inr [OF c] unb64_Inr [OF t] unb64_Inr [OF h]
  show ?thesis by (simp add: well_shaped_def Let_def)
qed

lemma handle_hmac_calls:
  assumes "session s = Some keys" "well_shaped N msg"
  shows "\<exists>s' out. handleEncryptedMessage N cfg s msg = Inr (s', out)
      \<and> session s' = Some keys
      \<and> filter is_hmac_call out = [Call_hmacSha256 (kMac keys) (macData_of N cfg msg)]"
  using assms
  by (auto simp: handle_well_shaped [OF assms] Let_def split: sum.splits)

lemma forEach_well_shaped:
  "session s = Some keys \<Longrightarrow> list_all (well_shaped N) ms \<Longrightarrow>
     \<exists>s' out. forEach_pending N cfg s ms = Inr (s', out)
       \<and> filter is_hmac_call out = map (\<lambda>m. Call_hmacSha256 (kMac keys) (macData_of N cfg m)) ms"
proof (induction ms arbitrary: s)
  case Nil
  then show ?case by simp
next
  case (Cons m ms)
  from Cons.prems have ws: "well_shaped N m" and rest: "list_all (well_shaped N) ms" by simp_all
  from handle_hmac_calls [OF Cons.prems(1) ws] obtain s1 out1 where
    h: "handleEncryptedMessage N cfg s m = Inr (s1, out1)" and k: "session s1 = Some keys"
    and c: "filter is_hmac_call out1 = [Call_hmacSha256 (kMac keys) (macData_of N cfg m)]"
    by blast
  from Cons.IH [OF k rest] obtain s2 out2 where
    r: "forEach_pending N cfg s1 ms = Inr (s2, out2)"
    and c2: "filter is_hmac_call out2 = map (\<lambda>m. Call_hmacSha256 (kMac keys) (macData_of N cfg m)) ms"
    by blast
  from h r c c2 show ?case by simp
qed

lemma processPending_well_shaped:
  assumes "session s = Some keys" "list_all (well_shaped N) (pendingMessages s)"
  shows "\<exists>s' out. processPendingMessages N cfg s = Inr (s', out)
       \<and> filter is_hmac_call out =
           map (\<lambda>m. Call_hmacSha256 (kMac keys) (macData_of N cfg m)) (pendingMessages s)"
proof (cases "pendingMessages s")
  case Nil
  then show ?thesis by (simp add: processPendingMessages_def)
next
  case (Cons m ms)
  from forEach_well_shaped [OF assms] obtain s1 out1 where
    "forEach_pending N cfg s (pendingMessages s) = Inr (s1, out1)"
    "filter is_hmac_call out1 =
       map (\<lambda>m. Call_hmacSha256 (kMac keys) (macData_of N cfg m)) (pendingMessages s)"
    by blast
  with Cons show ?thesis by (simp add: processPendingMessages_def)
qed

lemma on_handshake_establishes:
  assumes "\<not> peerHandshakeReceived s"
    and "p_curve (payload_or_empty (env_payload hs)) = Str (curve cfg)"
    and "unb64 N (or_empty_string (p_pub (payload_or_empty (env_payload hs)))) = Inr pub"
    and "computeSharedSecret N (ecdh cfg) pub = Inr shared"
    and "list_all (well_shaped N) (pendingMessages s)"
  shows "\<exists>s' out. on_handshake N cfg s hs = Inr (s', out)
       \<and> session s' = Some (deriveSessionKeys N shared
             (handshake_context (room cfg) (me cfg) (env_from hs) (curve cfg)))
       \<and> peerHandshakeReceived s' \<and> pendingMessages s' = []
       \<and> filter is_hmac_call out =
           map (\<lambda>m. Call_hmacSha256
                  (kMac (deriveSessionKeys N shared
                     (handshake_context (room cfg) (me cfg) (env_from hs) (curve cfg))))
                  (macData_of N cfg m)) (pendingMessages s)"
proof -
  let ?keys = "deriveSessionKeys N shared
                 (handshake_context (room cfg) (me cfg) (env_from hs) (curve cfg))"
  let ?s2 = "s\<lparr>handshakeSent := True, session := Some ?keys, peerHandshakeReceived := True\<rparr>"
  have k: "session ?s2 = Some ?keys" by simp
  have q: "list_all (well_shaped N) (pendingMessages ?s2)" using assms(5) by simp
  from processPending_well_shaped [OF k q, where cfg = cfg] obtain s3 drained where
    pp: "processPendingMessages N cfg ?s2 = Inr (s3, drained)"
    and calls: "filter is_hmac_call drained =
       map (\<lambda>m. Call_hmacSha256 (kMac ?keys) (macData_of N cfg m)) (pendingMessages s)"
    by auto
  obtain s4 prompt where pl: "promptLoop s3 = (s4, prompt)" by (cases "promptLoop s3")
  have np: "filter is_hmac_call prompt = []"
    using pl by (auto simp: promptLoop_def split: if_splits)
  have eq: "on_handshake N cfg s hs = Inr (s4,
        [Console_log (Log_handshake_received (env_from hs)),
         Console_log (Log_peer_fingerprint (fingerprint N pub)),
         Console_log Log_verify_fingerprint]
        @ (if \<not> handshakeSent s then sendHandshake N cfg (env_from hs) else [])
        @ [Console_log Log_keys_derived, Console_log Log_can_chat] @ drained @ prompt)"
    using assms(1-4) pp pl by (simp add: on_handshake_def Let_def)
  from processPending_frame [OF pp] promptLoop_frame [OF pl] calls np
  show ?thesis unfolding eq by (simp add: sendHandshake_def)
qed

lemma enqueue_step:
  assumes "session s = None" "env_type m = ''msg''" "\<not> not_for_me cfg m"
  shows "ws_on_message N cfg s m =
     Inr (s\<lparr>pendingMessages := pendingMessages s @ [m]\<rparr>, [Console_log Log_not_established])"
  using assms by (simp add: ws_on_message_def on_msg_def)

lemma enqueue_run:
  "session s = None \<Longrightarrow> list_all (\<lambda>m. env_type m = ''msg'' \<and> \<not> not_for_me cfg m) msgs \<Longrightarrow>
     run N cfg s (map Ws_message msgs) =
       Inr (s\<lparr>pendingMessages := pendingMessages s @ msgs\<rparr>,
            replicate (length msgs) (Console_log Log_not_established))"
proof (induction msgs arbitrary: s)
  case Nil
  then show ?case by simp
next
  case (Cons m msgs)
  from Cons.prems have m: "env_type m = ''msg''" "\<not> not_for_me cfg m"
    and rest: "list_all (\<lambda>m. env_type m = ''msg'' \<and> \<not> not_for_me cfg m) msgs" by simp_all
  let ?s1 = "s\<lparr>pendingMessages := pendingMessages s @ [m]\<rparr>"
  have s1: "session ?s1 = None" using Cons.prems(1) by simp
  show ?case
    by (simp add: enqueue_step [OF Cons.prems(1) m] Cons.IH [OF s1 rest])
qed



lemma unb64_Inl: "unb64 N v = Inl e \<Longrightarrow> e = TypeError \<and> \<not> decodes N v"
  by (cases v) (auto simp: decodes_def split: option.splits)

lemma handle_not_well_shaped:
  assumes "session s = Some keys" "\<not> well_shaped N msg"
  shows "handleEncryptedMessage N cfg s msg = Inl TypeError"
proof (cases "handleEncryptedMessage N cfg s msg")
  case (Inr r)
  obtain s' out where "r = (s', out)" by (cases r)
  with Inr handle_returns_well_shaped [OF _ assms(1)] assms(2) show ?thesis by blast
next
  case (Inl e)
  then have "e = TypeError"
    using assms(1)
    by (auto simp: handleEncryptedMessage_def Let_def timingSafeEq_eq
        split: sum.splits if_splits dest: unb64_Inl)
  with Inl show ?thesis by simp
qed

lemma toy_gcm_contract: "gcm_contract toy_node"
  by (simp add: gcm_contract_def toy_node_def comp_def)

lemma toy_base64_contract: "base64_contract toy_node"
proof -
  have "(of_nat (of_char (char_of (unat b))) :: byte) = b" for b :: byte
  proof -
    have "unat b < 256" using unsigned_less [of b] by simp
    then show ?thesis by (simp add: of_char_of)
  qed
  then show ?thesis
    by (simp add: base64_contract_def toy_node_def comp_def)
qed

lemma toy_utf8_contract: "utf8_contract toy_node"
proof -
  have "char_of (unat (of_nat (of_char c) :: byte)) = c" for c :: char
    by (simp add: unat_of_nat)
  then show ?thesis
    by (simp add: utf8_contract_def toy_node_def comp_def)
qed

section \<open>The properties\<close>

text \<open>
  C10. \<open>timingSafeEq\<close> returns for every pair of buffers and never throws: its result is
  whether the two are equal, so it is false when their lengths differ, although the
  primitive it calls throws there. A well-shaped message whose \<open>hmac\<close> field decodes to a
  buffer of another length than the expected HMAC is therefore discarded: the handler
  returns normally, with the state unchanged and the failed verification printed.
\<close>

theorem timingSafeEq_total:
  assumes "session s = Some keys" and "well_shaped N msg"
    and "length (received_hmac N msg) \<noteq> length (hmacSha256 N (kMac keys) (macData_of N cfg msg))"
  shows "timingSafeEq a b = Inr (a = b)
       \<and> crypto_timingSafeEqual (hmacSha256 N (kMac keys) (macData_of N cfg msg))
           (received_hmac N msg) = Inl RangeError
       \<and> timingSafeEq (hmacSha256 N (kMac keys) (macData_of N cfg msg)) (received_hmac N msg)
           = Inr False
       \<and> handleEncryptedMessage N cfg s msg =
           Inr (s, [Call_hmacSha256 (kMac keys) (macData_of N cfg msg),
                    Console_log Log_hmac_failed])"
proof -
  from assms(3) have ne: "hmacSha256 N (kMac keys) (macData_of N cfg msg) \<noteq> received_hmac N msg"
    by auto
  have "handleEncryptedMessage N cfg s msg =
          Inr (s, [Call_hmacSha256 (kMac keys) (macData_of N cfg msg), Console_log Log_hmac_failed])"
    using ne by (simp add: handle_well_shaped [OF assms(1,2)] Let_def)
  moreover have "crypto_timingSafeEqual (hmacSha256 N (kMac keys) (macData_of N cfg msg))
           (received_hmac N msg) = Inl RangeError"
    using assms(3) by (simp add: crypto_timingSafeEqual_def)
  ultimately show ?thesis using ne by (simp add: timingSafeEq_eq)
qed

theorem timingSafeEq_total_witness:
  "session established = Some toy_keys \<and> well_shaped toy_node short_hmac_msg
   \<and> length (received_hmac toy_node short_hmac_msg)
       \<noteq> length (hmacSha256 toy_node (kMac toy_keys) (macData_of toy_node bob short_hmac_msg))
   \<and> timingSafeEq [1, 2] [1] = Inr ([1, 2] = [1 :: byte])
   \<and> handleEncryptedMessage toy_node bob established short_hmac_msg =
       Inr (established,
         [Call_hmacSha256 (kMac toy_keys) (macData_of toy_node bob short_hmac_msg),
          Console_log Log_hmac_failed])"
proof -
  have h1: "session established = Some toy_keys" by (simp add: established_def)
  have h2: "well_shaped toy_node short_hmac_msg" by code_simp
  have h3: "length (received_hmac toy_node short_hmac_msg)
       \<noteq> length (hmacSha256 toy_node (kMac toy_keys) (macData_of toy_node bob short_hmac_msg))"
    by code_simp
  from timingSafeEq_total [OF h1 h2 h3, where a = "[1, 2]" and b = "[1]"] h1 h2 h3 show ?thesis by blast
qed

text \<open>
  C7. \<open>deriveSessionKeys\<close> computes the salt as the SHA-256 digest of the literal
  \<open>chat-e2ee-salt\<close>, asks HKDF-SHA256 for 64 bytes with the shared secret as input
  key material, that salt and the context as info, and returns bytes 0 to 31 of the
  output as the encryption key and bytes 32 to 63 as the MAC key: it equals the
  derivation written in the specification's words, whenever HKDF returns the 64 bytes
  asked for. Its result is a function of its arguments.
\<close>

theorem deriveSessionKeys_refines:
  assumes "length (hkdfSync N ''sha256'' sharedSecret
            (createHash_digest N ''sha256'' (utf8_bytes N ''chat-e2ee-salt''))
            (utf8_bytes N context) 64) = 64"
  shows "deriveSessionKeys N sharedSecret context = derive_spec N sharedSecret context
       \<and> length (kEnc (deriveSessionKeys N sharedSecret context)) = 32
       \<and> length (kMac (deriveSessionKeys N sharedSecret context)) = 32
       \<and> kEnc (deriveSessionKeys N sharedSecret context)
           @ kMac (deriveSessionKeys N sharedSecret context)
         = hkdfSync N ''sha256'' sharedSecret
            (createHash_digest N ''sha256'' (utf8_bytes N ''chat-e2ee-salt''))
            (utf8_bytes N context) 64"
proof -
  let ?okm = "hkdfSync N ''sha256'' sharedSecret
            (createHash_digest N ''sha256'' (utf8_bytes N ''chat-e2ee-salt''))
            (utf8_bytes N context) 64"
  have keys: "deriveSessionKeys N sharedSecret context
      = \<lparr>kEnc = subarray ?okm 0 32, kMac = subarray ?okm 32 64\<rparr>"
    by (simp add: deriveSessionKeys_def hkdfSha256_def Let_def)
  have spec: "derive_spec N sharedSecret context
      = \<lparr>kEnc = map (\<lambda>i. ?okm ! i) [0..<32], kMac = map (\<lambda>i. ?okm ! i) [32..<64]\<rparr>"
    by (simp add: derive_spec_def Let_def)
  have e: "subarray ?okm 0 32 = map (\<lambda>i. ?okm ! i) [0..<32]"
    using assms by (intro subarray_nth) simp_all
  have m: "subarray ?okm 32 64 = map (\<lambda>i. ?okm ! i) [32..<64]"
    using assms by (intro subarray_nth) simp_all
  have cat: "subarray ?okm 0 32 @ subarray ?okm 32 64 = ?okm"
    using assms by (simp add: subarray_def)
  from e m have l: "length (subarray ?okm 0 32) = 32" "length (subarray ?okm 32 64) = 32"
    by simp_all
  show ?thesis
    unfolding keys spec using e m cat l by simp
qed

theorem deriveSessionKeys_refines_witness:
  "length (hkdfSync toy_node ''sha256'' [15]
      (createHash_digest toy_node ''sha256'' (utf8_bytes toy_node ''chat-e2ee-salt''))
      (utf8_bytes toy_node ''ctx'') 64) = 64
   \<and> deriveSessionKeys toy_node [15] ''ctx'' = derive_spec toy_node [15] ''ctx''
   \<and> length (kEnc (deriveSessionKeys toy_node [15] ''ctx'')) = 32
   \<and> length (kMac (deriveSessionKeys toy_node [15] ''ctx'')) = 32"
proof -
  have h: "length (hkdfSync toy_node ''sha256'' [15]
      (createHash_digest toy_node ''sha256'' (utf8_bytes toy_node ''chat-e2ee-salt''))
      (utf8_bytes toy_node ''ctx'') 64) = 64"
    by (simp add: toy_node_def)
  from deriveSessionKeys_refines [OF h] h show ?thesis by blast
qed

text \<open>
  C8. For a public key whose SHA-256 digest has its 32 bytes, \<open>fingerprint\<close> is four
  groups of 6 characters separated by hyphens; the groups, end to end, are the first 24
  characters of the digest in hexadecimal, all of them hexadecimal digits. The
  fingerprint is a function of the key's bytes.
\<close>

theorem fingerprint_format:
  assumes "length (createHash_digest N ''sha256'' buf) = 32"
  shows "\<exists>g1 g2 g3 g4.
           fingerprint N buf = g1 @ ''-'' @ g2 @ ''-'' @ g3 @ ''-'' @ g4
         \<and> length g1 = 6 \<and> length g2 = 6 \<and> length g3 = 6 \<and> length g4 = 6
         \<and> g1 @ g2 @ g3 @ g4 = take 24 (hex (createHash_digest N ''sha256'' buf))
         \<and> set (g1 @ g2 @ g3 @ g4) \<subseteq> set ''0123456789abcdef''"
proof -
  let ?h = "hex (createHash_digest N ''sha256'' buf)"
  have len: "length ?h = 64" using assms by (simp add: length_hex)
  have cat: "js_slice ?h 0 6 @ js_slice ?h 6 12 @ js_slice ?h 12 18 @ js_slice ?h 18 24 = take 24 ?h"
    unfolding js_slice_def using len
    by (simp add: take_add [symmetric] flip: append_assoc)
  have digits: "set (take 24 ?h) \<subseteq> set ''0123456789abcdef''"
    using set_hex [of "createHash_digest N ''sha256'' buf"] set_take_subset [of 24 ?h] by blast
  have l1: "length (js_slice ?h 0 6) = 6" and l2: "length (js_slice ?h 6 12) = 6"
    and l3: "length (js_slice ?h 12 18) = 6" and l4: "length (js_slice ?h 18 24) = 6"
    using len by (simp_all add: js_slice_def)
  have fp: "fingerprint N buf =
      js_slice ?h 0 6 @ ''-'' @ js_slice ?h 6 12 @ ''-'' @ js_slice ?h 12 18 @ ''-'' @ js_slice ?h 18 24"
    by (simp add: fingerprint_def Let_def)
  from fp l1 l2 l3 l4 cat digits show ?thesis
    by (metis (no_types))
qed

theorem fingerprint_format_witness:
  "length (createHash_digest toy_node ''sha256'' [1, 2, 3]) = 32
   \<and> fingerprint toy_node [1, 2, 3] = ''090909-090909-090909-090909''
   \<and> (\<exists>g1 g2 g3 g4.
         fingerprint toy_node [1, 2, 3] = g1 @ ''-'' @ g2 @ ''-'' @ g3 @ ''-'' @ g4
       \<and> length g1 = 6 \<and> length g2 = 6 \<and> length g3 = 6 \<and> length g4 = 6
       \<and> g1 @ g2 @ g3 @ g4 = take 24 (hex (createHash_digest toy_node ''sha256'' [1, 2, 3]))
       \<and> set (g1 @ g2 @ g3 @ g4) \<subseteq> set ''0123456789abcdef'')"
proof -
  have h: "length (createHash_digest toy_node ''sha256'' [1, 2, 3]) = 32"
    by (simp add: toy_node_def)
  have v: "fingerprint toy_node [1, 2, 3] = ''090909-090909-090909-090909''"
    by code_simp
  from fingerprint_format [OF h] h v show ?thesis by blast
qed

text \<open>
  C3. For every message envelope received while the session is established, the HMAC over
  \<open>aad || iv || ciphertext || authTag\<close> is to be recomputed and compared first, and a
  failed comparison is to be reported as an authentication failure with nothing
  decrypted and the session unchanged. On this input the code does not do so. Bob's
  client holds the session and receives Alice's message \<open>hi\<close> without its \<open>hmac\<close>
  field: \<open>handleEncryptedMessage\<close> throws a \<open>TypeError\<close> when it decodes the field
  (\<open>Buffer.from(undefined, "base64")\<close>), before it computes or compares any HMAC and
  outside its \<open>try\<close>; no authentication failure is printed and the exception ends the
  process. With a wrong \<open>hmac\<close> field in its place the failed verification is printed
  and the state is unchanged, as claimed.
\<close>

theorem missing_hmac_field_ends_process:
  "session established = Some toy_keys
   \<and> env_type no_hmac_msg = ''msg'' \<and> \<not> not_for_me bob no_hmac_msg
   \<and> p_hmac (payload_or_empty (env_payload no_hmac_msg)) = Undefined
   \<and> ws_on_message toy_node bob established no_hmac_msg = Inl TypeError
   \<and> ws_on_message toy_node bob established forged_msg =
       Inr (established,
         [Call_hmacSha256 (kMac toy_keys) (macData_of toy_node bob forged_msg),
          Console_log Log_hmac_failed])"
  by code_simp

text \<open>
  What holds of every envelope while the session is established. When its four binary
  fields decode, \<open>handleEncryptedMessage\<close> returns, and its first act is the HMAC-SHA256
  under the MAC key of \<open>aad || iv || ciphertext || authTag\<close>; when that HMAC differs from
  the received one, \<open>timingSafeEq\<close> answers false, the handler prints the failed
  verification and returns without calling \<open>decryptAesGcm\<close> and with the state
  unchanged; a call of \<open>decryptAesGcm\<close>, or any change of the state, happens only when
  the two HMACs are equal. When a field does not decode, the handler throws before the
  HMAC is computed. (The running time of the comparison is not modelled.)
\<close>

lemma hmac_checked_before_decrypt:
  assumes "session s = Some keys"
  shows "(well_shaped N msg \<longrightarrow>
            createHmac_digest N ''sha256'' (kMac keys) (macData_of N cfg msg)
              \<noteq> received_hmac N msg \<longrightarrow>
            timingSafeEq (createHmac_digest N ''sha256'' (kMac keys) (macData_of N cfg msg))
              (received_hmac N msg) = Inr False
            \<and> handleEncryptedMessage N cfg s msg =
                Inr (s, [Call_hmacSha256 (kMac keys) (macData_of N cfg msg),
                         Console_log Log_hmac_failed]))
       \<and> (env_type msg = ''msg'' \<longrightarrow> \<not> not_for_me cfg msg \<longrightarrow>
            ws_on_message N cfg s msg = handleEncryptedMessage N cfg s msg)
       \<and> (\<not> well_shaped N msg \<longrightarrow> handleEncryptedMessage N cfg s msg = Inl TypeError)
       \<and> (\<forall>s' out. handleEncryptedMessage N cfg s msg = Inr (s', out) \<longrightarrow>
            hd out = Call_hmacSha256 (kMac keys) (macData_of N cfg msg)
            \<and> (filter is_decrypt_call out \<noteq> [] \<or> s' \<noteq> s \<longrightarrow>
                 createHmac_digest N ''sha256'' (kMac keys) (macData_of N cfg msg)
                   = received_hmac N msg))"
proof (intro conjI impI allI)
  assume ws: "well_shaped N msg"
    and ne: "createHmac_digest N ''sha256'' (kMac keys) (macData_of N cfg msg)
      \<noteq> received_hmac N msg"
  from ne show "timingSafeEq (createHmac_digest N ''sha256'' (kMac keys) (macData_of N cfg msg))
      (received_hmac N msg) = Inr False"
    by (simp add: timingSafeEq_eq)
  from ne show "handleEncryptedMessage N cfg s msg =
      Inr (s, [Call_hmacSha256 (kMac keys) (macData_of N cfg msg), Console_log Log_hmac_failed])"
    by (simp add: handle_well_shaped [OF assms ws] Let_def hmacSha256_def)
next
  assume "env_type msg = ''msg''" and "\<not> not_for_me cfg msg"
  then show "ws_on_message N cfg s msg = handleEncryptedMessage N cfg s msg"
    using assms by (simp add: ws_on_message_def on_msg_def)
next
  assume "\<not> well_shaped N msg"
  then show "handleEncryptedMessage N cfg s msg = Inl TypeError"
    by (rule handle_not_well_shaped [OF assms])
next
  fix s' out
  assume r: "handleEncryptedMessage N cfg s msg = Inr (s', out)"
  from handle_returns_well_shaped [OF r assms] have ws: "well_shaped N msg" .
  from r show "hd out = Call_hmacSha256 (kMac keys) (macData_of N cfg msg)"
    unfolding handle_well_shaped [OF assms ws]
    by (auto simp: Let_def split: if_splits sum.splits)
next
  fix s' out
  assume r: "handleEncryptedMessage N cfg s msg = Inr (s', out)"
    and d: "filter is_decrypt_call out \<noteq> [] \<or> s' \<noteq> s"
  from handle_returns_well_shaped [OF r assms] have ws: "well_shaped N msg" .
  from r d show "createHmac_digest N ''sha256'' (kMac keys) (macData_of N cfg msg)
      = received_hmac N msg"
    unfolding handle_well_shaped [OF assms ws]
    by (auto simp: Let_def hmacSha256_def split: if_splits sum.splits)
qed

lemma hmac_checked_before_decrypt_on_toy:
  "session established = Some toy_keys \<and> well_shaped toy_node forged_msg
   \<and> createHmac_digest toy_node ''sha256'' (kMac toy_keys) (macData_of toy_node bob forged_msg)
       \<noteq> received_hmac toy_node forged_msg
   \<and> env_type forged_msg = ''msg'' \<and> \<not> not_for_me bob forged_msg
   \<and> ws_on_message toy_node bob established forged_msg =
       Inr (established,
         [Call_hmacSha256 (kMac toy_keys) (macData_of toy_node bob forged_msg),
          Console_log Log_hmac_failed])"
proof -
  have h1: "session established = Some toy_keys" by (simp add: established_def)
  have h2: "well_shaped toy_node forged_msg" by code_simp
  have h3: "createHmac_digest toy_node ''sha256'' (kMac toy_keys)
      (macData_of toy_node bob forged_msg) \<noteq> received_hmac toy_node forged_msg" by code_simp
  have h4: "env_type forged_msg = ''msg''" by code_simp
  have h5: "\<not> not_for_me bob forged_msg" by code_simp
  from hmac_checked_before_decrypt [OF h1, where msg = forged_msg and N = toy_node and cfg = bob]
    h1 h2 h3 h4 h5
  show ?thesis by simp
qed

text \<open>
  C6. In every state the client reaches from its start in which the session exists, a
  handshake envelope changes nothing: the handler returns normally with the same state
  (session keys, both counters and the queue included), and all it does is print that
  the duplicate is ignored (or nothing, when the envelope is addressed to another
  identity).
\<close>

theorem duplicate_handshake_ignored:
  assumes "final_state (run N cfg initial_state evs) = Some s"
    and "session s \<noteq> None" and "env_type msg = ''handshake''"
  shows "ws_on_message N cfg s msg =
           Inr (s, if not_for_me cfg msg then []
                   else [Console_log (Log_duplicate_handshake (env_from msg))])"
proof -
  from final_state_Some [OF assms(1)] obtain out where
    "run N cfg initial_state evs = Inr (s, out)" by blast
  from run_inv [OF initial_inv this] have "session_inv s" by simp
  with assms(2) have "peerHandshakeReceived s"
    by (auto simp: session_inv_def split: option.splits)
  with assms(3) show ?thesis
    by (simp add: ws_on_message_def on_handshake_def)
qed

theorem duplicate_handshake_ignored_witness:
  "final_state (run toy_node alice initial_state [Ws_message (handshake_of bob)]) = Some established
   \<and> session established \<noteq> None \<and> env_type (handshake_of bob) = ''handshake''
   \<and> ws_on_message toy_node alice established (handshake_of bob) =
       Inr (established, [Console_log (Log_duplicate_handshake ''bob'')])"
proof -
  have h1: "final_state (run toy_node alice initial_state [Ws_message (handshake_of bob)])
      = Some established" by code_simp
  have h2: "session established \<noteq> None" by (simp add: established_def)
  have h3: "env_type (handshake_of bob) = ''handshake''" by (simp add: handshake_of_def)
  have h4: "\<not> not_for_me alice (handshake_of bob)" by code_simp
  have h5: "env_from (handshake_of bob) = ''bob''" by code_simp
  from duplicate_handshake_ignored [OF h1 h2 h3] h1 h2 h3 h4 h5 show ?thesis by simp
qed

text \<open>
  C9. In every state the client reaches from its start, the session exists exactly when
  the peer's handshake has been accepted, and then the queue is empty; every handler
  that returns keeps this, and once the session exists it exists, with an empty queue,
  after every later event. From then on a message envelope addressed to the client goes
  straight to \<open>handleEncryptedMessage\<close> and is not queued. In a whole run the keys are
  derived, and the queue drained after it, at most once.
\<close>

theorem established_queue_stays_empty:
  assumes "final_state (run N cfg initial_state evs) = Some s"
  shows "session_inv s
       \<and> (session s \<noteq> None \<longrightarrow> pendingMessages s = [])
       \<and> (\<forall>ev s' out. handle N cfg s ev = Inr (s', out) \<longrightarrow>
             session_inv s' \<and> (session s \<noteq> None \<longrightarrow> session s' \<noteq> None \<and> pendingMessages s' = []))
       \<and> (\<forall>msg. session s \<noteq> None \<longrightarrow> env_type msg = ''msg'' \<longrightarrow> \<not> not_for_me cfg msg \<longrightarrow>
             ws_on_message N cfg s msg = handleEncryptedMessage N cfg s msg)
       \<and> length (filter is_establishment (effects_of (run N cfg initial_state evs))) \<le> 1"
proof -
  from final_state_Some [OF assms] obtain out where
    r: "run N cfg initial_state evs = Inr (s, out)"
    and e: "effects_of (run N cfg initial_state evs) = out" by blast
  note R = run_inv [OF initial_inv r]
  then have inv: "session_inv s" by simp
  have empty: "pendingMessages s = []" if "session s \<noteq> None"
    using inv that by (auto simp: session_inv_def split: option.splits)
  have step: "session_inv s' \<and> (session s \<noteq> None \<longrightarrow> session s' \<noteq> None \<and> pendingMessages s' = [])"
    if h: "handle N cfg s ev = Inr (s', out')" for ev s' out'
  proof -
    note H = handle_inv [OF inv h]
    then have i': "session_inv s'" by simp
    show ?thesis
    proof (intro conjI impI)
      show "session_inv s'" by (rule i')
    next
      assume "session s \<noteq> None"
      with inv have "peerHandshakeReceived s"
        by (auto simp: session_inv_def split: option.splits)
      with H have "peerHandshakeReceived s'" by simp
      with i' show "session s' \<noteq> None"
        by (auto simp: session_inv_def split: option.splits)
      with i' show "pendingMessages s' = []"
        by (auto simp: session_inv_def split: option.splits)
    qed
  qed
  have direct: "ws_on_message N cfg s msg = handleEncryptedMessage N cfg s msg"
    if "session s \<noteq> None" "env_type msg = ''msg''" "\<not> not_for_me cfg msg" for msg
    using that by (auto simp: ws_on_message_def on_msg_def split: option.splits)
  from R e have once: "length (filter is_establishment (effects_of (run N cfg initial_state evs))) \<le> 1"
    by simp
  from inv empty step direct once show ?thesis by blast
qed

theorem established_queue_stays_empty_witness:
  "final_state (run toy_node bob initial_state
      [Ws_message hi_msg, Ws_message (handshake_of alice), Ws_message hi_msg])
     = Some (established\<lparr>recvCounter := 2\<rparr>)
   \<and> session (established\<lparr>recvCounter := 2\<rparr>) \<noteq> None
   \<and> session_inv (established\<lparr>recvCounter := 2\<rparr>)
   \<and> pendingMessages (established\<lparr>recvCounter := 2\<rparr>) = []
   \<and> length (filter is_establishment (effects_of (run toy_node bob initial_state
        [Ws_message hi_msg, Ws_message (handshake_of alice), Ws_message hi_msg]))) \<le> 1"
proof -
  have h1: "final_state (run toy_node bob initial_state
      [Ws_message hi_msg, Ws_message (handshake_of alice), Ws_message hi_msg])
     = Some (established\<lparr>recvCounter := 2\<rparr>)" by code_simp
  have h2: "session (established\<lparr>recvCounter := 2\<rparr>) \<noteq> None" by (simp add: established_def)
  from established_queue_stays_empty [OF h1] h1 h2 show ?thesis by blast
qed


text \<open>
  The queue is first in, first out. While there is no session, a message envelope
  addressed to the client is appended to the queue, whatever it holds, and nothing else
  changes: a sequence of them leaves the queue extended by that sequence, in its order.
  When the peer's handshake is then accepted (its curve is the local one and its key
  gives a shared secret) and every queued envelope is well shaped, that one call of the
  handler sets the session, opens every queued envelope in the order of arrival (the
  calls of \<open>hmacSha256\<close> it makes are those of the queued envelopes, one each, in
  that order, under the MAC key just derived) and leaves the queue empty, before the
  handler returns to take any later event.
\<close>

lemma pending_queue_fifo:
  assumes "session s = None" and "\<not> peerHandshakeReceived s"
    and "list_all (\<lambda>m. env_type m = ''msg'' \<and> \<not> not_for_me cfg m) msgs"
    and "env_type hs = ''handshake''" and "\<not> not_for_me cfg hs"
    and "p_curve (payload_or_empty (env_payload hs)) = Str (curve cfg)"
    and "unb64 N (or_empty_string (p_pub (payload_or_empty (env_payload hs)))) = Inr pub"
    and "computeSharedSecret N (ecdh cfg) pub = Inr shared"
    and "keys = deriveSessionKeys N shared
           (handshake_context (room cfg) (me cfg) (env_from hs) (curve cfg))"
  shows "run N cfg s (map Ws_message msgs) =
           Inr (s\<lparr>pendingMessages := pendingMessages s @ msgs\<rparr>,
                replicate (length msgs) (Console_log Log_not_established))
       \<and> (list_all (well_shaped N) (pendingMessages s @ msgs) \<longrightarrow>
           (\<exists>s' out.
               ws_on_message N cfg (s\<lparr>pendingMessages := pendingMessages s @ msgs\<rparr>) hs
                 = Inr (s', out)
             \<and> session s' = Some keys \<and> pendingMessages s' = []
             \<and> filter is_hmac_call out =
                 map (\<lambda>m. Call_hmacSha256 (kMac keys) (macData_of N cfg m))
                   (pendingMessages s @ msgs)))"
proof (intro conjI impI)
  show "run N cfg s (map Ws_message msgs) =
           Inr (s\<lparr>pendingMessages := pendingMessages s @ msgs\<rparr>,
                replicate (length msgs) (Console_log Log_not_established))"
    by (rule enqueue_run [OF assms(1,3)])
next
  let ?s1 = "s\<lparr>pendingMessages := pendingMessages s @ msgs\<rparr>"
  assume "list_all (well_shaped N) (pendingMessages s @ msgs)"
  then have b: "list_all (well_shaped N) (pendingMessages ?s1)" by simp
  have a: "\<not> peerHandshakeReceived ?s1" using assms(2) by simp
  from on_handshake_establishes [OF a assms(6,7,8) b] obtain s' out where
    "on_handshake N cfg ?s1 hs = Inr (s', out)" "session s' = Some keys" "pendingMessages s' = []"
    "filter is_hmac_call out =
       map (\<lambda>m. Call_hmacSha256 (kMac keys) (macData_of N cfg m)) (pendingMessages ?s1)"
    unfolding assms(9) by blast
  moreover have "ws_on_message N cfg ?s1 hs = on_handshake N cfg ?s1 hs"
    using assms(4,5) by (simp add: ws_on_message_def)
  ultimately show "\<exists>s' out.
       ws_on_message N cfg ?s1 hs = Inr (s', out)
     \<and> session s' = Some keys \<and> pendingMessages s' = []
     \<and> filter is_hmac_call out =
         map (\<lambda>m. Call_hmacSha256 (kMac keys) (macData_of N cfg m)) (pendingMessages s @ msgs)"
    by simp
qed

lemma pending_queue_fifo_on_toy:
  "session initial_state = None \<and> \<not> peerHandshakeReceived initial_state
   \<and> list_all (\<lambda>m. env_type m = ''msg'' \<and> \<not> not_for_me bob m) [other_msg, hi_msg]
   \<and> list_all (well_shaped toy_node) (pendingMessages initial_state @ [other_msg, hi_msg])
   \<and> env_type (handshake_of alice) = ''handshake'' \<and> \<not> not_for_me bob (handshake_of alice)
   \<and> p_curve (payload_or_empty (env_payload (handshake_of alice))) = Str (curve bob)
   \<and> unb64 toy_node (or_empty_string (p_pub (payload_or_empty (env_payload (handshake_of alice)))))
        = Inr [1, 2, 3]
   \<and> computeSharedSecret toy_node (ecdh bob) [1, 2, 3] = Inr [15]
   \<and> toy_keys = deriveSessionKeys toy_node [15]
        (handshake_context (room bob) (me bob) (env_from (handshake_of alice)) (curve bob))
   \<and> run toy_node bob initial_state (map Ws_message [other_msg, hi_msg]) =
        Inr (initial_state\<lparr>pendingMessages := pendingMessages initial_state @ [other_msg, hi_msg]\<rparr>,
             replicate (length [other_msg, hi_msg]) (Console_log Log_not_established))
   \<and> (\<exists>s' out.
         ws_on_message toy_node bob
           (initial_state\<lparr>pendingMessages := pendingMessages initial_state @ [other_msg, hi_msg]\<rparr>)
           (handshake_of alice) = Inr (s', out)
       \<and> session s' = Some toy_keys \<and> pendingMessages s' = []
       \<and> filter is_hmac_call out =
           map (\<lambda>m. Call_hmacSha256 (kMac toy_keys) (macData_of toy_node bob m))
             (pendingMessages initial_state @ [other_msg, hi_msg]))"
proof -
  have h1: "session initial_state = None" by code_simp
  have h2: "\<not> peerHandshakeReceived initial_state" by code_simp
  have h3: "list_all (\<lambda>m. env_type m = ''msg'' \<and> \<not> not_for_me bob m) [other_msg, hi_msg]"
    by code_simp
  have h4: "list_all (well_shaped toy_node) (pendingMessages initial_state @ [other_msg, hi_msg])"
    by code_simp
  have h6: "env_type (handshake_of alice) = ''handshake''" by code_simp
  have h7: "\<not> not_for_me bob (handshake_of alice)" by code_simp
  have h8: "p_curve (payload_or_empty (env_payload (handshake_of alice))) = Str (curve bob)"
    by code_simp
  have h9: "unb64 toy_node (or_empty_string (p_pub (payload_or_empty (env_payload (handshake_of alice)))))
        = Inr [1, 2, 3]" by code_simp
  have h10: "computeSharedSecret toy_node (ecdh bob) [1, 2, 3] = Inr [15]" by code_simp
  have h11: "toy_keys = deriveSessionKeys toy_node [15]
        (handshake_context (room bob) (me bob) (env_from (handshake_of alice)) (curve bob))"
    by code_simp
  from pending_queue_fifo [OF h1 h2 h3 h6 h7 h8 h9 h10 h11] h1 h2 h3 h4 h6 h7 h8 h9 h10 h11
  show ?thesis by blast
qed

text \<open>
  When a queued envelope is not well shaped the drain stops at it: \<open>unb64\<close> throws, no
  \<open>try\<close> encloses it, the envelopes queued behind are not opened and the exception ends
  the handler, whatever the library.
\<close>

lemma drain_stops_at_malformed:
  assumes "\<not> peerHandshakeReceived s"
    and "pendingMessages s = good @ bad # rest"
    and "list_all (well_shaped N) good" and "\<not> well_shaped N bad"
    and "env_type hs = ''handshake''" and "\<not> not_for_me cfg hs"
    and "p_curve (payload_or_empty (env_payload hs)) = Str (curve cfg)"
    and "unb64 N (or_empty_string (p_pub (payload_or_empty (env_payload hs)))) = Inr pub"
    and "computeSharedSecret N (ecdh cfg) pub = Inr shared"
  shows "ws_on_message N cfg s hs = Inl TypeError"
proof -
  let ?keys = "deriveSessionKeys N shared
                 (handshake_context (room cfg) (me cfg) (env_from hs) (curve cfg))"
  let ?s2 = "s\<lparr>handshakeSent := True, session := Some ?keys, peerHandshakeReceived := True\<rparr>"
  have stop: "forEach_pending N cfg t (good @ bad # rest) = Inl TypeError"
    if "session t = Some ?keys" "list_all (well_shaped N) good" for t
    using that
  proof (induction good arbitrary: t)
    case Nil
    then show ?case by (simp add: handle_not_well_shaped [OF _ assms(4)])
  next
    case (Cons m good)
    from Cons.prems have ws: "well_shaped N m" and g: "list_all (well_shaped N) good" by simp_all
    from handle_hmac_calls [OF Cons.prems(1) ws, where cfg = cfg] obtain t1 out1 where
      h: "handleEncryptedMessage N cfg t m = Inr (t1, out1)" and k: "session t1 = Some ?keys"
      by blast
    from Cons.IH [OF k g] h show ?case by simp
  qed
  have k2: "session ?s2 = Some ?keys" by simp
  have "processPendingMessages N cfg ?s2 = Inl TypeError"
    using stop [OF k2 assms(3)] by (simp add: processPendingMessages_def assms(2))
  then have "on_handshake N cfg s hs = Inl TypeError"
    using assms(1,7,8,9) by (simp add: on_handshake_def Let_def)
  then show ?thesis using assms(5,6) by (simp add: ws_on_message_def)
qed

text \<open>
  C5. Every message envelope received before the session exists is queued, and at the
  handshake each queued envelope is to be opened in the order of arrival. On this run
  the code does not do so. Bob's client queues an envelope of type \<open>msg\<close> that has no
  payload and then Alice's message \<open>hi\<close>; when Alice's handshake arrives it derives the
  keys and starts the drain, and \<open>handleEncryptedMessage\<close> throws a \<open>TypeError\<close> at the
  first envelope (\<open>Buffer.from(undefined, "base64")\<close>): \<open>hi\<close> is never opened and the
  process ends. Had the first envelope not been queued, \<open>hi\<close> would have been printed.
\<close>

theorem malformed_queued_message_ends_drain:
  "final_state (run toy_node bob initial_state [Ws_message bare_msg, Ws_message hi_msg])
     = Some (initial_state\<lparr>pendingMessages := [bare_msg, hi_msg]\<rparr>)
   \<and> run toy_node bob initial_state
       [Ws_message bare_msg, Ws_message hi_msg, Ws_message (handshake_of alice)] = Inl TypeError
   \<and> Console_log (Log_text ''alice'' ''hi'') \<in> set (effects_of (run toy_node bob initial_state
       [Ws_message hi_msg, Ws_message (handshake_of alice)]))"
  by code_simp



text \<open>
  C2. Opening what was sealed gives the plaintext back. For every plaintext (the empty
  one included), every encryption key of 32 bytes, every MAC key, every \<open>iv\<close> of 12
  bytes and every associated data: \<open>encryptAesGcm\<close> seals the plaintext with
  AES-256-GCM under the \<open>iv\<close> with the associated data bound in; the HMAC is
  HMAC-SHA256 under the MAC key of \<open>aad || iv || ciphertext || authTag\<close>; and a client
  that holds the same keys and rebuilds the same associated data from the envelope that
  carries the four in base64 passes the HMAC check, decrypts, prints exactly the
  plaintext and counts one more received message. The envelope the prompt loop sends for
  a line (not empty and not \<open>/quit\<close>, which it does not send) is that envelope. The
  library is only assumed to keep its promises: AES-256-GCM decrypts what it encrypted
  under the same key, \<open>iv\<close> and associated data, and base64 and UTF-8 decode what they
  encoded.
\<close>

theorem seal_open_roundtrip:
  assumes "gcm_contract N" and "base64_contract N" and "utf8_contract N"
    and "session sB = Some keys" and "length (kEnc keys) = 32" and "length iv = 12"
    and "aad = buildAad N (room cfgB) sender (me cfgB) counter"
  shows "\<exists>ct tag mac.
           cipher_gcm N ''aes-256-gcm'' (kEnc keys) iv aad (utf8_bytes N plaintext) = Some (ct, tag)
         \<and> encryptAesGcm N (kEnc keys) plaintext aad iv
             = Inr \<lparr>sealed_iv = iv, sealed_ct = ct, sealed_tag = tag\<rparr>
         \<and> mac = createHmac_digest N ''sha256'' (kMac keys) (aad @ iv @ ct @ tag)
         \<and> hmacSha256 N (kMac keys) (aad @ iv @ ct @ tag) = mac
         \<and> ws_on_message N cfgB sB
               (msg_envelope N (room cfgB) sender (me cfgB) counter iv ct tag mac) =
             Inr (sB\<lparr>recvCounter := recvCounter sB + 1\<rparr>,
                  [Call_hmacSha256 (kMac keys) (aad @ iv @ ct @ tag),
                   Call_decryptAesGcm (kEnc keys) iv ct tag aad,
                   Console_log (Log_text sender plaintext)])
         \<and> (\<forall>cfgA sA. session sA = Some keys \<longrightarrow> room cfgA = room cfgB \<longrightarrow>
               me cfgA = sender \<longrightarrow> peer cfgA = me cfgB \<longrightarrow>
               counter = Num (sendCounter sA + 1) \<longrightarrow>
               plaintext \<noteq> [] \<longrightarrow> plaintext \<noteq> ''/quit'' \<longrightarrow>
               promptLoop_line N cfgA sA iv plaintext =
                 Inr (sA\<lparr>sendCounter := sendCounter sA + 1\<rparr>,
                      [Call_hmacSha256 (kMac keys) (aad @ iv @ ct @ tag),
                       Ws_send (msg_envelope N (room cfgB) sender (me cfgB) counter iv ct tag mac),
                       Ask_prompt]))"
proof -
  from assms(1,5,6) have "cipher_gcm N ''aes-256-gcm'' (kEnc keys) iv aad (utf8_bytes N plaintext)
      \<noteq> None"
    by (simp add: gcm_contract_def)
  then obtain ct tag where
    enc: "cipher_gcm N ''aes-256-gcm'' (kEnc keys) iv aad (utf8_bytes N plaintext) = Some (ct, tag)"
    by (cases "cipher_gcm N ''aes-256-gcm'' (kEnc keys) iv aad (utf8_bytes N plaintext)") auto
  from assms(1) enc have
    dec: "decipher_gcm N ''aes-256-gcm'' (kEnc keys) iv aad ct tag = Some (utf8_bytes N plaintext)"
    unfolding gcm_contract_def by blast
  have b64: "base64_bytes N (base64_string N buf) = buf" for buf
    using assms(2) by (simp add: base64_contract_def)
  have utf: "utf8_string N (utf8_bytes N plaintext) = plaintext"
    using assms(3) by (simp add: utf8_contract_def)
  let ?mac = "createHmac_digest N ''sha256'' (kMac keys) (aad @ iv @ ct @ tag)"
  let ?e = "msg_envelope N (room cfgB) sender (me cfgB) counter iv ct tag ?mac"
  have sealed: "encryptAesGcm N (kEnc keys) plaintext aad iv
      = Inr \<lparr>sealed_iv = iv, sealed_ct = ct, sealed_tag = tag\<rparr>"
    using enc by (simp add: encryptAesGcm_def)
  have mac: "hmacSha256 N (kMac keys) (aad @ iv @ ct @ tag) = ?mac"
    by (simp add: hmacSha256_def)
  have pl: "payload_or_empty (env_payload ?e) = empty_payload\<lparr>p_counter := counter,
        p_iv := Str (b64 N iv), p_ct := Str (b64 N ct), p_tag := Str (b64 N tag),
        p_hmac := Str (b64 N ?mac)\<rparr>"
    by (simp add: msg_envelope_def payload_or_empty_def)
  have shaped: "well_shaped N ?e"
    by (simp add: well_shaped_def pl decodes_def)
  have aadB: "aad_of N cfgB ?e = aad"
    by (simp add: aad_of_def msg_envelope_def payload_or_empty_def assms(7))
  have fields: "field_bytes N (p_iv (payload_or_empty (env_payload ?e))) = iv"
    "field_bytes N (p_ct (payload_or_empty (env_payload ?e))) = ct"
    "field_bytes N (p_tag (payload_or_empty (env_payload ?e))) = tag"
    by (simp_all add: pl field_bytes_def b64_def b64)
  have dataB: "macData_of N cfgB ?e = aad @ iv @ ct @ tag"
    by (simp add: macData_of_def aadB fields)
  have macB: "received_hmac N ?e = ?mac"
    by (simp add: received_hmac_def pl field_bytes_def b64_def b64)
  have opened: "decryptAesGcm N (kEnc keys) iv ct tag aad = Inr plaintext"
    using dec utf by (simp add: decryptAesGcm_def)
  have from_e: "env_from ?e = sender" by (simp add: msg_envelope_def)
  have "handleEncryptedMessage N cfgB sB ?e =
      Inr (sB\<lparr>recvCounter := recvCounter sB + 1\<rparr>,
           [Call_hmacSha256 (kMac keys) (aad @ iv @ ct @ tag),
            Call_decryptAesGcm (kEnc keys) iv ct tag aad,
            Console_log (Log_text sender plaintext)])"
    unfolding handle_well_shaped [OF assms(4) shaped] Let_def dataB macB aadB fields from_e
    using opened by (simp add: mac)
  moreover have "ws_on_message N cfgB sB ?e = handleEncryptedMessage N cfgB sB ?e"
    using assms(4) by (simp add: msg_envelope_def ws_on_message_def on_msg_def not_for_me_def)
  ultimately have recv: "ws_on_message N cfgB sB ?e =
      Inr (sB\<lparr>recvCounter := recvCounter sB + 1\<rparr>,
           [Call_hmacSha256 (kMac keys) (aad @ iv @ ct @ tag),
            Call_decryptAesGcm (kEnc keys) iv ct tag aad,
            Console_log (Log_text sender plaintext)])"
    by simp
  have send: "promptLoop_line N cfgA sA iv plaintext =
      Inr (sA\<lparr>sendCounter := sendCounter sA + 1\<rparr>,
           [Call_hmacSha256 (kMac keys) (aad @ iv @ ct @ tag), Ws_send ?e, Ask_prompt])"
    if a: "session sA = Some keys" "room cfgA = room cfgB" "me cfgA = sender"
      "peer cfgA = me cfgB" "counter = Num (sendCounter sA + 1)"
      "plaintext \<noteq> []" "plaintext \<noteq> ''/quit''"
    for cfgA :: config and sA :: client_state
  proof -
    have aadA: "buildAad N (room cfgA) (me cfgA) (peer cfgA) (Num (sendCounter sA + 1)) = aad"
      by (simp add: assms(7) a)
    show ?thesis
      using a(1,6,7) sealed
      by (simp add: promptLoop_line_def Let_def aadA mac)
        (simp add: msg_envelope_def a)
  qed
  from enc sealed mac recv send show ?thesis by blast
qed

theorem seal_open_roundtrip_witness:
  "gcm_contract toy_node \<and> base64_contract toy_node \<and> utf8_contract toy_node
   \<and> session established = Some toy_keys \<and> length (kEnc toy_keys) = 32 \<and> length toy_iv = 12
   \<and> ws_on_message toy_node bob established hi_msg =
       Inr (established\<lparr>recvCounter := 1\<rparr>,
            [Call_hmacSha256 (kMac toy_keys) (macData_of toy_node bob hi_msg),
             Call_decryptAesGcm (kEnc toy_keys) toy_iv [105, 106] [99] (aad_of toy_node bob hi_msg),
             Console_log (Log_text ''alice'' ''hi'')])
   \<and> (\<exists>ct tag mac.
         cipher_gcm toy_node ''aes-256-gcm'' (kEnc toy_keys) toy_iv (aad_of toy_node bob hi_msg)
           (utf8_bytes toy_node ''hi'') = Some (ct, tag)
       \<and> mac = createHmac_digest toy_node ''sha256'' (kMac toy_keys)
           (aad_of toy_node bob hi_msg @ toy_iv @ ct @ tag)
       \<and> ws_on_message toy_node bob established
             (msg_envelope toy_node (room bob) ''alice'' (me bob) (Num 1) toy_iv ct tag mac) =
           Inr (established\<lparr>recvCounter := recvCounter established + 1\<rparr>,
                [Call_hmacSha256 (kMac toy_keys) (aad_of toy_node bob hi_msg @ toy_iv @ ct @ tag),
                 Call_decryptAesGcm (kEnc toy_keys) toy_iv ct tag (aad_of toy_node bob hi_msg),
                 Console_log (Log_text ''alice'' ''hi'')])
       \<and> promptLoop_line toy_node alice established toy_iv ''hi'' =
           Inr (established\<lparr>sendCounter := sendCounter established + 1\<rparr>,
                [Call_hmacSha256 (kMac toy_keys) (aad_of toy_node bob hi_msg @ toy_iv @ ct @ tag),
                 Ws_send (msg_envelope toy_node (room bob) ''alice'' (me bob) (Num 1) toy_iv ct tag mac),
                 Ask_prompt]))"
proof -
  have h4: "session established = Some toy_keys" by code_simp
  have h5: "length (kEnc toy_keys) = 32" by code_simp
  have h6: "length toy_iv = 12" by code_simp
  have h7: "aad_of toy_node bob hi_msg = buildAad toy_node (room bob) ''alice'' (me bob) (Num 1)"
    by code_simp
  have v: "ws_on_message toy_node bob established hi_msg =
       Inr (established\<lparr>recvCounter := 1\<rparr>,
            [Call_hmacSha256 (kMac toy_keys) (macData_of toy_node bob hi_msg),
             Call_decryptAesGcm (kEnc toy_keys) toy_iv [105, 106] [99] (aad_of toy_node bob hi_msg),
             Console_log (Log_text ''alice'' ''hi'')])"
    by code_simp
  have a: "room alice = room bob" "me alice = ''alice''" "peer alice = me bob"
    "Num 1 = Num (sendCounter established + 1)" "''hi'' \<noteq> []" "''hi'' \<noteq> ''/quit''"
    by (simp_all add: alice_def bob_def established_def)
  from seal_open_roundtrip [OF toy_gcm_contract toy_base64_contract toy_utf8_contract h4 h5 h6 h7,
      where plaintext = "''hi''"]
  obtain ct tag mac where
    r: "cipher_gcm toy_node ''aes-256-gcm'' (kEnc toy_keys) toy_iv (aad_of toy_node bob hi_msg)
           (utf8_bytes toy_node ''hi'') = Some (ct, tag)"
       "mac = createHmac_digest toy_node ''sha256'' (kMac toy_keys)
           (aad_of toy_node bob hi_msg @ toy_iv @ ct @ tag)"
       "ws_on_message toy_node bob established
             (msg_envelope toy_node (room bob) ''alice'' (me bob) (Num 1) toy_iv ct tag mac) =
           Inr (established\<lparr>recvCounter := recvCounter established + 1\<rparr>,
                [Call_hmacSha256 (kMac toy_keys) (aad_of toy_node bob hi_msg @ toy_iv @ ct @ tag),
                 Call_decryptAesGcm (kEnc toy_keys) toy_iv ct tag (aad_of toy_node bob hi_msg),
                 Console_log (Log_text ''alice'' ''hi'')])"
    and s: "\<forall>cfgA sA. session sA = Some toy_keys \<longrightarrow> room cfgA = room bob \<longrightarrow>
               me cfgA = ''alice'' \<longrightarrow> peer cfgA = me bob \<longrightarrow>
               Num 1 = Num (sendCounter sA + 1) \<longrightarrow>
               ''hi'' \<noteq> [] \<longrightarrow> ''hi'' \<noteq> ''/quit'' \<longrightarrow>
               promptLoop_line toy_node cfgA sA toy_iv ''hi'' =
                 Inr (sA\<lparr>sendCounter := sendCounter sA + 1\<rparr>,
                      [Call_hmacSha256 (kMac toy_keys) (aad_of toy_node bob hi_msg @ toy_iv @ ct @ tag),
                       Ws_send (msg_envelope toy_node (room bob) ''alice'' (me bob) (Num 1) toy_iv ct tag mac),
                       Ask_prompt])"
    by blast
  from s h4 a have send: "promptLoop_line toy_node alice established toy_iv ''hi'' =
       Inr (established\<lparr>sendCounter := sendCounter established + 1\<rparr>,
            [Call_hmacSha256 (kMac toy_keys) (aad_of toy_node bob hi_msg @ toy_iv @ ct @ tag),
             Ws_send (msg_envelope toy_node (room bob) ''alice'' (me bob) (Num 1) toy_iv ct tag mac),
             Ask_prompt])"
    by blast
  from toy_gcm_contract toy_base64_contract toy_utf8_contract h4 h5 h6 v r send
  show ?thesis by blast
qed

text \<open>
  C4 (as the code has it). A handshake envelope that is not a duplicate and declares a
  curve other than the local one is only dropped: the handler prints the peer's
  fingerprint and the mismatch and returns, it derives no keys from the envelope, sends
  nothing and leaves the state exactly as it was. There is no terminal state: a run
  continues after the envelope as if it had not arrived.
\<close>

theorem curve_mismatch_drops_handshake:
  assumes "\<not> peerHandshakeReceived s"
    and "env_type hs = ''handshake''" and "\<not> not_for_me cfg hs"
    and "p_curve (payload_or_empty (env_payload hs)) \<noteq> Str (curve cfg)"
    and "unb64 N (or_empty_string (p_pub (payload_or_empty (env_payload hs)))) = Inr pub"
  shows "ws_on_message N cfg s hs =
           Inr (s, [Console_log (Log_handshake_received (env_from hs)),
                    Console_log (Log_peer_fingerprint (fingerprint N pub)),
                    Console_log Log_verify_fingerprint,
                    Console_log (Log_curve_mismatch (curve cfg)
                      (p_curve (payload_or_empty (env_payload hs))))])
       \<and> final_state (run N cfg s (Ws_message hs # evs)) = final_state (run N cfg s evs)"
proof -
  have step: "ws_on_message N cfg s hs =
           Inr (s, [Console_log (Log_handshake_received (env_from hs)),
                    Console_log (Log_peer_fingerprint (fingerprint N pub)),
                    Console_log Log_verify_fingerprint,
                    Console_log (Log_curve_mismatch (curve cfg)
                      (p_curve (payload_or_empty (env_payload hs))))])"
    using assms by (simp add: ws_on_message_def on_handshake_def Let_def)
  then have "final_state (run N cfg s (Ws_message hs # evs)) = final_state (run N cfg s evs)"
    by (simp add: final_state_def split: sum.splits)
  with step show ?thesis by simp
qed

theorem curve_mismatch_drops_handshake_witness:
  "\<not> peerHandshakeReceived initial_state
   \<and> env_type bob_other_curve = ''handshake'' \<and> \<not> not_for_me alice bob_other_curve
   \<and> p_curve (payload_or_empty (env_payload bob_other_curve)) \<noteq> Str (curve alice)
   \<and> unb64 toy_node (or_empty_string (p_pub (payload_or_empty (env_payload bob_other_curve))))
       = Inr [4, 5]
   \<and> ws_on_message toy_node alice initial_state bob_other_curve =
       Inr (initial_state,
            [Console_log (Log_handshake_received (env_from bob_other_curve)),
             Console_log (Log_peer_fingerprint (fingerprint toy_node [4, 5])),
             Console_log Log_verify_fingerprint,
             Console_log (Log_curve_mismatch (curve alice)
               (p_curve (payload_or_empty (env_payload bob_other_curve))))])"
proof -
  have h1: "\<not> peerHandshakeReceived initial_state" by code_simp
  have h2: "env_type bob_other_curve = ''handshake''" by code_simp
  have h3: "\<not> not_for_me alice bob_other_curve" by code_simp
  have h4: "p_curve (payload_or_empty (env_payload bob_other_curve)) \<noteq> Str (curve alice)"
    by code_simp
  have h5: "unb64 toy_node (or_empty_string (p_pub (payload_or_empty (env_payload bob_other_curve))))
       = Inr [4, 5]" by code_simp
  from curve_mismatch_drops_handshake [OF h1 h2 h3 h4 h5] h1 h2 h3 h4 h5 show ?thesis by blast
qed

text \<open>
  So the session is not aborted: after Bob's handshake for another curve, Alice's client
  handles his handshake for the right curve and derives the session keys.
\<close>

theorem curve_mismatch_not_terminal:
  "env_type bob_other_curve = ''handshake''
   \<and> p_curve (payload_or_empty (env_payload bob_other_curve)) \<noteq> Str (curve alice)
   \<and> final_state (run toy_node alice initial_state
        [Ws_message bob_other_curve, Ws_message (handshake_of bob)]) = Some established
   \<and> session established = Some toy_keys"
  by code_simp

end
